theory Spec2Isabelle
  imports Main "HOL-Library.Word" "HOL-Library.Sublist"
begin

section \<open>Errors\<close>

text \<open>
  A Go \<^verbatim>\<open>error\<close> value is either built by \<^verbatim>\<open>fmt.Errorf(format, args...)\<close> or is an
  existing error wrapped with a message. \<open>Errorf\<close> keeps the format string and its
  arguments apart, so that the value a message names stays visible; a nil error is
  \<open>None\<close> of \<open>error option\<close>.
\<close>

datatype error = Errorf string "string list" | Wrapf error string

section \<open>String sets\<close>

text \<open>
  \<^verbatim>\<open>sets.Set[string]\<close> of apimachinery is a map from its members to the empty struct. It
  is modelled as a duplicate-free list of its members. \<^verbatim>\<open>UnsortedList()\<close> ranges over
  the map, and Go leaves the order of that iteration open: the order is a parameter of
  the model (field \<open>UnsortedList\<close> of the collaborators below).
\<close>

type_synonym Set = "string list"

definition sets_New :: "string list \<Rightarrow> Set" where
  "sets_New items = remdups items"

definition sets_Len :: "Set \<Rightarrow> nat" where
  "sets_Len s = length s"

definition sets_Has :: "Set \<Rightarrow> string \<Rightarrow> bool" where
  "sets_Has s item = (item \<in> set s)"

definition sets_Insert :: "Set \<Rightarrow> string \<Rightarrow> Set" where
  "sets_Insert s item = (if item \<in> set s then s else s @ [item])"

section \<open>Broker deployment: data\<close>

text \<open>
  Modelled from the spec: the component names of \<^verbatim>\<open>internal/component\<close>, which is not
  among the source files. The spec gives the known component set as
  \<^verbatim>\<open>service-discovery\<close>, \<^verbatim>\<open>connectivity\<close>, and \<^verbatim>\<open>globalnet\<close> as the implicitly added one.
\<close>

definition component_ServiceDiscovery :: string where
  "component_ServiceDiscovery = ''service-discovery''"

definition component_Connectivity :: string where
  "component_Connectivity = ''connectivity''"

definition component_Globalnet :: string where
  "component_Globalnet = ''globalnet''"

text \<open>
  The fields of \<^verbatim>\<open>operatorv1alpha1.BrokerSpec\<close> that \<^verbatim>\<open>pkg/deploy/broker.go\<close> reads or
  writes. \<^verbatim>\<open>DefaultGlobalnetClusterSize\<close> is a Go \<^verbatim>\<open>uint\<close>.
\<close>

record BrokerSpec =
  Components :: "string list"
  GlobalnetEnabled :: bool
  GlobalnetCIDRRange :: string
  DefaultGlobalnetClusterSize :: "64 word"

record BrokerOptions =
  OperatorDebug :: bool
  Repository :: string
  ImageVersion :: string
  BrokerNamespace :: string
  BrokerSpec :: BrokerSpec

section \<open>The target cluster, the reporter and the collaborators\<close>

text \<open>
  Every call that leaves the process is written down. A \<open>call\<close> is one invocation of an
  external applier with the arguments the source passes.
\<close>

datatype call =
    Call_broker_Ensure "string list" bool string
  | Call_operator_Ensure string string bool
  | Call_brokercr_Ensure string BrokerSpec
  | Call_ValidateExistingGlobalNetworks string
  | Call_CreateConfigMap bool string "64 word" string

datatype event =
    Start string
  | Failure error
  | End
  | Invoked call "error option"

text \<open>
  The world is the state of the target cluster (of any type \<open>'c\<close>: only the
  collaborators read or change it) and the sequence of events so far: what the
  reporter was told, and each collaborator call with the error it returned.
\<close>

record 'c world =
  cluster :: 'c
  trace :: "event list"

text \<open>
  The collaborators are the functions \<^verbatim>\<open>broker.go\<close> imports from packages that are not
  among the source files. Each is a parameter: an applier takes the cluster state and
  returns an error or nil together with the new cluster state; the two globalnet
  checks and the image name are pure.
\<close>

record 'c collaborators =
  broker_Ensure :: "string list \<Rightarrow> bool \<Rightarrow> string \<Rightarrow> 'c \<Rightarrow> error option \<times> 'c"
  operator_Ensure :: "string \<Rightarrow> string \<Rightarrow> bool \<Rightarrow> 'c \<Rightarrow> error option \<times> 'c"
  brokercr_Ensure :: "string \<Rightarrow> BrokerSpec \<Rightarrow> 'c \<Rightarrow> error option \<times> 'c"
  globalnet_ValidateExistingGlobalNetworks :: "string \<Rightarrow> 'c \<Rightarrow> error option \<times> 'c"
  globalnet_CreateConfigMap ::
    "bool \<Rightarrow> string \<Rightarrow> 64 word \<Rightarrow> string \<Rightarrow> 'c \<Rightarrow> error option \<times> 'c"
  globalnet_GetValidClusterSize :: "string \<Rightarrow> 64 word \<Rightarrow> 64 word \<times> error option"
  globalnet_IsValidCIDR :: "string \<Rightarrow> error option"
  image_GetOperatorImage :: "string \<Rightarrow> string \<Rightarrow> string"
  constants_OperatorNamespace :: string
  UnsortedList :: "Set \<Rightarrow> string list"

text \<open>
  A call is carried out by the collaborator it names, on the cluster state of the
  moment, and is written to the trace with the error it returned.
\<close>

fun run_call :: "'c collaborators \<Rightarrow> call \<Rightarrow> 'c \<Rightarrow> error option \<times> 'c" where
  "run_call env (Call_broker_Ensure components b ns) = broker_Ensure env components b ns"
| "run_call env (Call_operator_Ensure ns img debug) = operator_Ensure env ns img debug"
| "run_call env (Call_brokercr_Ensure ns spec) = brokercr_Ensure env ns spec"
| "run_call env (Call_ValidateExistingGlobalNetworks ns) =
     globalnet_ValidateExistingGlobalNetworks env ns"
| "run_call env (Call_CreateConfigMap enabled cidr n ns) =
     globalnet_CreateConfigMap env enabled cidr n ns"

definition invoke :: "'c collaborators \<Rightarrow> call \<Rightarrow> 'c world \<Rightarrow> error option \<times> 'c world" where
  "invoke env c w =
     (case run_call env c (cluster w) of
        (err, c') \<Rightarrow> (err, \<lparr>cluster = c', trace = trace w @ [Invoked c err]\<rparr>))"

text \<open>
  Modelled from the spec: \<^verbatim>\<open>reporter.Interface\<close> of admiral, which is not among the
  source files. \<^verbatim>\<open>Error(err, message)\<close> returns nil for a nil error; otherwise it
  attaches the message to the error ("the error is surfaced with the step's context
  attached"), reports the failure, ends the operation in progress and returns the
  wrapped error.
\<close>

definition status_Start :: "string \<Rightarrow> 'c world \<Rightarrow> 'c world" where
  "status_Start message w = w\<lparr>trace := trace w @ [Start message]\<rparr>"

definition status_End :: "'c world \<Rightarrow> 'c world" where
  "status_End w = w\<lparr>trace := trace w @ [End]\<rparr>"

definition status_Error :: "error option \<Rightarrow> string \<Rightarrow> 'c world \<Rightarrow> error option \<times> 'c world" where
  "status_Error err message w =
     (case err of
        None \<Rightarrow> (None, w)
      | Some e \<Rightarrow>
          (Some (Wrapf e message),
           w\<lparr>trace := trace w @ [Failure (Wrapf e message), End]\<rparr>))"

section \<open>\<^verbatim>\<open>pkg/deploy/broker.go\<close>\<close>

definition ValidComponents :: "string list" where
  "ValidComponents = [component_ServiceDiscovery, component_Connectivity]"

text \<open>
  The loop of \<^verbatim>\<open>isValidComponents\<close> over \<^verbatim>\<open>componentSet.UnsortedList()\<close>: the first member
  that is not valid ends it with an error.
\<close>

fun isValidComponents_loop :: "Set \<Rightarrow> string list \<Rightarrow> error option" where
  "isValidComponents_loop validComponentSet [] = None"
| "isValidComponents_loop validComponentSet (component # rest) =
     (if \<not> sets_Has validComponentSet component
      then Some (Errorf ''unknown component: %s'' [component])
      else isValidComponents_loop validComponentSet rest)"

definition isValidComponents :: "'c collaborators \<Rightarrow> Set \<Rightarrow> error option" where
  "isValidComponents env componentSet =
     (let validComponentSet = sets_New ValidComponents in
      if sets_Len componentSet < 1
      then Some (Errorf ''at least one component must be provided for deployment'' [])
      else isValidComponents_loop validComponentSet (UnsortedList env componentSet))"

text \<open>
  \<^verbatim>\<open>checkGlobalnetConfig\<close> takes a pointer to the options and assigns to the size field
  before it looks at the error: the options come back with the result.
\<close>

definition checkGlobalnetConfig ::
  "'c collaborators \<Rightarrow> BrokerOptions \<Rightarrow> error option \<times> BrokerOptions" where
  "checkGlobalnetConfig env options =
     (if \<not> GlobalnetEnabled (BrokerSpec options) then (None, options)
      else
        (case globalnet_GetValidClusterSize env
                (GlobalnetCIDRRange (BrokerSpec options))
                (DefaultGlobalnetClusterSize (BrokerSpec options)) of
           (clusterSize, err) \<Rightarrow>
             (let options' =
                    options\<lparr>BrokerSpec :=
                      (BrokerSpec options)\<lparr>DefaultGlobalnetClusterSize := clusterSize\<rparr>\<rparr>
              in if err \<noteq> None then (err, options')
                 else (globalnet_IsValidCIDR env (GlobalnetCIDRRange (BrokerSpec options')),
                       options'))))"

text \<open>
  \<^verbatim>\<open>deploy\<close>: the body, and around it the deferred \<^verbatim>\<open>status.End()\<close>, which runs on
  every return after the returned value has been computed.
\<close>

definition deploy_body :: "'c collaborators \<Rightarrow> BrokerOptions \<Rightarrow> 'c world \<Rightarrow> error option \<times> 'c world" where
  "deploy_body env options w0 =
     (let w1 = status_Start ''Setting up broker RBAC'' w0 in
      case invoke env
             (Call_broker_Ensure (Components (BrokerSpec options)) False
                (BrokerNamespace options)) w1 of
        (err, w2) \<Rightarrow>
          if err \<noteq> None then status_Error err ''error setting up broker RBAC'' w2
          else
            (let w3 = status_Start ''Deploying the Submariner operator'' w2;
                 operatorImage =
                   image_GetOperatorImage env (Repository options) (ImageVersion options)
             in case invoke env
                      (Call_operator_Ensure (constants_OperatorNamespace env) operatorImage
                         (OperatorDebug options)) w3 of
                  (err, w4) \<Rightarrow>
                    if err \<noteq> None
                    then status_Error err ''error deploying Submariner operator'' w4
                    else
                      (let w5 = status_Start ''Deploying the broker'' w4 in
                       case invoke env
                              (Call_brokercr_Ensure (BrokerNamespace options)
                                 (BrokerSpec options)) w5 of
                         (err, w6) \<Rightarrow> status_Error err ''Broker deployment failed'' w6)))"

definition deploy :: "'c collaborators \<Rightarrow> BrokerOptions \<Rightarrow> 'c world \<Rightarrow> error option \<times> 'c world" where
  "deploy env options w =
     (case deploy_body env options w of (err, w') \<Rightarrow> (err, status_End w'))"

text \<open>
  \<^verbatim>\<open>Broker\<close>. The options are behind a pointer, so the caller sees what
  \<^verbatim>\<open>checkGlobalnetConfig\<close> wrote: they are returned too. The \<^verbatim>\<open>componentSet\<close> with
  \<^verbatim>\<open>globalnet\<close> inserted is computed and not used afterwards, as in the source.
\<close>

definition Broker ::
  "'c collaborators \<Rightarrow> BrokerOptions \<Rightarrow> 'c world \<Rightarrow> error option \<times> BrokerOptions \<times> 'c world" where
  "Broker env options w =
     (let componentSet = sets_New (Components (BrokerSpec options)) in
      case isValidComponents env componentSet of
        Some err \<Rightarrow>
          (case status_Error (Some err) ''invalid components parameter'' w of
             (r, w') \<Rightarrow> (r, options, w'))
      | None \<Rightarrow>
          (let componentSet' =
                 (if GlobalnetEnabled (BrokerSpec options)
                  then sets_Insert componentSet component_Globalnet else componentSet)
           in case checkGlobalnetConfig env options of
                (Some err, options1) \<Rightarrow>
                  (case status_Error (Some err) ''invalid GlobalCIDR configuration'' w of
                     (r, w') \<Rightarrow> (r, options1, w'))
              | (None, options1) \<Rightarrow>
                  (case deploy env options1 w of
                     (Some err, w1) \<Rightarrow> (Some err, options1, w1)
                   | (None, w1) \<Rightarrow>
                       (case (if GlobalnetEnabled (BrokerSpec options1)
                              then invoke env
                                     (Call_ValidateExistingGlobalNetworks
                                        (BrokerNamespace options1)) w1
                              else (None, w1)) of
                          (Some err, w2) \<Rightarrow>
                            (case status_Error (Some err)
                                    ''error validating existing globalCIDR configmap'' w2 of
                               (r, w') \<Rightarrow> (r, options1, w'))
                        | (None, w2) \<Rightarrow>
                            (case invoke env
                                    (Call_CreateConfigMap
                                       (GlobalnetEnabled (BrokerSpec options1))
                                       (GlobalnetCIDRRange (BrokerSpec options1))
                                       (DefaultGlobalnetClusterSize (BrokerSpec options1))
                                       (BrokerNamespace options1)) w2 of
                               (Some err, w3) \<Rightarrow>
                                 (case status_Error (Some err)
                                         ''error creating globalCIDR configmap on Broker'' w3 of
                                    (r, w') \<Rightarrow> (r, options1, w'))
                             | (None, w3) \<Rightarrow> (None, options1, w3))))))"

section \<open>The gather command\<close>

text \<open>
  \<^verbatim>\<open>gather.Options\<close>, the fields the command sets from its flags. In the source the
  options are a package variable; here they are passed in and returned.
\<close>

record Options =
  Types :: "string list"
  Modules :: "string list"
  Directory :: string
  IncludeSensitiveData :: bool

text \<open>
  The reading of the clock in UTC, \<^verbatim>\<open>time.Now().UTC()\<close>, as calendar fields.
\<close>

record Time =
  Year :: nat
  Month :: nat
  Day :: nat
  Hour :: nat
  Minute :: nat
  Second :: nat
  Nanosecond :: nat

text \<open>
  Modelled from the spec: \<^verbatim>\<open>Time.Format\<close> of the Go standard library at the layout
  \<^verbatim>\<open>20060102150405\<close>, "UTC timestamp formatted as YYYYMMDDHHMMSS": the year in at least
  four decimal digits, then month, day, hour (0 to 23), minute and second in at least
  two digits each, padded with zeros on the left.
\<close>

definition digit :: "nat \<Rightarrow> char" where
  "digit d = char_of (48 + d mod 10)"

fun utoa :: "nat \<Rightarrow> string" where
  "utoa n = (if n < 10 then [digit n] else utoa (n div 10) @ [digit n])"

declare utoa.simps [simp del]

definition appendInt :: "nat \<Rightarrow> nat \<Rightarrow> string" where
  "appendInt x width = replicate (width - length (utoa x)) CHR ''0'' @ utoa x"

definition Format_20060102150405 :: "Time \<Rightarrow> string" where
  "Format_20060102150405 t =
     appendInt (Year t) 4 @ appendInt (Month t) 2 @ appendInt (Day t) 2 @
     appendInt (Hour t) 2 @ appendInt (Minute t) 2 @ appendInt (Second t) 2"

text \<open>
  The collaborators of the gather command, from packages that are not among the source
  files: the two known sets of \<^verbatim>\<open>internal/gather\<close> (as lists of their members), the
  runner over all cluster contexts, which is the one that connects to clusters and
  calls the function it is given once per context, and the collector \<^verbatim>\<open>gather.Data\<close>.
  \<open>'w\<close> is the state of everything outside the process, \<open>'i\<close> is \<^verbatim>\<open>cluster.Info\<close>.
\<close>

record ('w, 'i) gather_collaborators =
  gather_AllTypes :: Set
  gather_AllModules :: Set
  RunOnAllContexts :: "('i \<Rightarrow> string \<Rightarrow> 'w \<Rightarrow> error option \<times> 'w) \<Rightarrow> 'w \<Rightarrow> error option \<times> 'w"
  gather_Data :: "'i \<Rightarrow> Options \<Rightarrow> 'w \<Rightarrow> error option \<times> 'w"

fun checkTypes :: "Set \<Rightarrow> string list \<Rightarrow> error option" where
  "checkTypes allTypes [] = None"
| "checkTypes allTypes (t # rest) =
     (if \<not> sets_Has allTypes t then Some (Errorf ''%q is not a supported type'' [t])
      else checkTypes allTypes rest)"

fun checkModules :: "Set \<Rightarrow> string list \<Rightarrow> error option" where
  "checkModules allModules [] = None"
| "checkModules allModules (m # rest) =
     (if \<not> sets_Has allModules m then Some (Errorf ''%q is not a supported module'' [m])
      else checkModules allModules rest)"

definition checkGatherArguments :: "('w, 'i) gather_collaborators \<Rightarrow> Options \<Rightarrow> error option" where
  "checkGatherArguments env options =
     (case checkTypes (gather_AllTypes env) (Types options) of
        Some err \<Rightarrow> Some err
      | None \<Rightarrow> checkModules (gather_AllModules env) (Modules options))"

text \<open>
  Modelled from the spec: \<^verbatim>\<open>internal/exit\<close>, which is not among the source files.
  \<^verbatim>\<open>exit.OnErrorWithMessage\<close> and \<^verbatim>\<open>exit.OnError\<close> end the process on a non-nil error
  ("violation fails the entire command") and return on nil. How the command ended is
  the \<open>outcome\<close>.
\<close>

datatype outcome =
    Completed
  | ExitOnErrorWithMessage error string
  | ExitOnError error

text \<open>The \<^verbatim>\<open>Run\<close> function of \<^verbatim>\<open>gatherCmd\<close>.\<close>

definition gatherCmd_Run ::
  "('w, 'i) gather_collaborators \<Rightarrow> Time \<Rightarrow> Options \<Rightarrow> 'w \<Rightarrow> outcome \<times> Options \<times> 'w" where
  "gatherCmd_Run env now options0 w =
     (let options =
            (if Directory options0 = []
             then options0\<lparr>Directory := ''submariner-'' @ Format_20060102150405 now\<rparr>
             else options0)
      in case checkGatherArguments env options of
           Some err \<Rightarrow> (ExitOnErrorWithMessage err ''Invalid argument'', options, w)
         | None \<Rightarrow>
             (case RunOnAllContexts env
                     (\<lambda>clusterInfo namespace. gather_Data env clusterInfo options) w of
                (Some err, w') \<Rightarrow> (ExitOnError err, options, w')
              | (None, w') \<Rightarrow> (Completed, options, w')))"

section \<open>Reading a trace\<close>

text \<open>The collaborator calls of a trace, in order, each with the error it returned.\<close>

fun calls_of :: "event list \<Rightarrow> (call \<times> error option) list" where
  "calls_of [] = []"
| "calls_of (Invoked c r # es) = (c, r) # calls_of es"
| "calls_of (e # es) = calls_of es"

text \<open>The events a run added to the trace it started from.\<close>

definition new_events :: "'c world \<Rightarrow> 'c world \<Rightarrow> event list" where
  "new_events w w' = drop (length (trace w)) (trace w')"

text \<open>
  The steps of the pipeline, the step a call belongs to, and the message under which the
  source reports the failure of a call.
\<close>

datatype step = RBAC | OPERATOR | BROKER_OBJECT | GLOBALNET_VALIDATE | GLOBALNET_CONFIGMAP

fun step_of :: "call \<Rightarrow> step" where
  "step_of (Call_broker_Ensure components b ns) = RBAC"
| "step_of (Call_operator_Ensure ns img debug) = OPERATOR"
| "step_of (Call_brokercr_Ensure ns spec) = BROKER_OBJECT"
| "step_of (Call_ValidateExistingGlobalNetworks ns) = GLOBALNET_VALIDATE"
| "step_of (Call_CreateConfigMap enabled cidr n ns) = GLOBALNET_CONFIGMAP"

fun context_of :: "step \<Rightarrow> string" where
  "context_of RBAC = ''error setting up broker RBAC''"
| "context_of OPERATOR = ''error deploying Submariner operator''"
| "context_of BROKER_OBJECT = ''Broker deployment failed''"
| "context_of GLOBALNET_VALIDATE = ''error validating existing globalCIDR configmap''"
| "context_of GLOBALNET_CONFIGMAP = ''error creating globalCIDR configmap on Broker''"

text \<open>The steps a trace went through, each with the error its call returned.\<close>

definition results_of :: "event list \<Rightarrow> (step \<times> error option) list" where
  "results_of es = map (\<lambda>(c, r). (step_of c, r)) (calls_of es)"

definition steps_run :: "'c world \<Rightarrow> 'c world \<Rightarrow> step list" where
  "steps_run w w' = map fst (results_of (new_events w w'))"

text \<open>
  What a fail-fast run through the sequence \<open>ss\<close> (of steps, or of calls) looks like, as
  the list \<open>rs\<close> of what was run, each with the error it returned, and the error \<open>r\<close>
  the run returns: the members of \<open>ss\<close> are run in order; either all of them return nil
  and so does the run, or the first that returns an error is the last one run and the
  run returns that error under the message \<open>ctx\<close> gives for it.
\<close>

fun fail_fast_run ::
  "('a \<Rightarrow> string) \<Rightarrow> 'a list \<Rightarrow> error option \<Rightarrow> ('a \<times> error option) list \<Rightarrow> bool" where
  "fail_fast_run ctx [] r rs = (rs = [] \<and> r = None)"
| "fail_fast_run ctx (s # ss) r [] = False"
| "fail_fast_run ctx (s # ss) r ((s', None) # rest) = (s' = s \<and> fail_fast_run ctx ss r rest)"
| "fail_fast_run ctx (s # ss) r ((s', Some e) # rest) =
     (s' = s \<and> rest = [] \<and> r = Some (Wrapf e (ctx s)))"

text \<open>
  The calls of \<^verbatim>\<open>deploy\<close> and of the rest of \<^verbatim>\<open>Broker\<close>, with the arguments the source
  passes, for the options as \<^verbatim>\<open>checkGlobalnetConfig\<close> left them.
\<close>

definition deploy_calls :: "'c collaborators \<Rightarrow> BrokerOptions \<Rightarrow> call list" where
  "deploy_calls env options =
     [Call_broker_Ensure (Components (BrokerSpec options)) False (BrokerNamespace options),
      Call_operator_Ensure (constants_OperatorNamespace env)
        (image_GetOperatorImage env (Repository options) (ImageVersion options))
        (OperatorDebug options),
      Call_brokercr_Ensure (BrokerNamespace options) (BrokerSpec options)]"

definition globalnet_calls :: "BrokerOptions \<Rightarrow> call list" where
  "globalnet_calls options =
     (if GlobalnetEnabled (BrokerSpec options)
      then [Call_ValidateExistingGlobalNetworks (BrokerNamespace options)] else []) @
     [Call_CreateConfigMap (GlobalnetEnabled (BrokerSpec options))
        (GlobalnetCIDRRange (BrokerSpec options))
        (DefaultGlobalnetClusterSize (BrokerSpec options)) (BrokerNamespace options)]"

section \<open>A sample cluster\<close>

text \<open>
  Concrete collaborators for running the model: the cluster is the list of the objects
  applied to it so far, and every applier succeeds.
\<close>

definition example_failure :: error where
  "example_failure = Errorf ''connection refused'' []"

definition example_options :: BrokerOptions where
  "example_options =
     \<lparr>OperatorDebug = False, Repository = ''quay.io/submariner'', ImageVersion = ''0.15.0'',
      BrokerNamespace = ''submariner-k8s-broker'',
      BrokerSpec =
        \<lparr>Components = [''service-discovery'', ''connectivity'', ''service-discovery''],
         GlobalnetEnabled = False, GlobalnetCIDRRange = ''242.0.0.0/8'',
         DefaultGlobalnetClusterSize = 0\<rparr>\<rparr>"

definition example_collaborators :: "string list collaborators" where
  "example_collaborators =
     \<lparr>broker_Ensure = (\<lambda>components b ns c. (None, c @ [''rbac''])),
      operator_Ensure = (\<lambda>ns img debug c. (None, c @ [''operator''])),
      brokercr_Ensure = (\<lambda>ns spec c. (None, c @ [''broker''])),
      globalnet_ValidateExistingGlobalNetworks = (\<lambda>ns c. (None, c)),
      globalnet_CreateConfigMap = (\<lambda>enabled cidr n ns c. (None, c @ [''configmap''])),
      globalnet_GetValidClusterSize = (\<lambda>cidr n. (if n = 0 then 65536 else n, None)),
      globalnet_IsValidCIDR = (\<lambda>cidr. None),
      image_GetOperatorImage = (\<lambda>repository version. repository @ ''/operator:'' @ version),
      constants_OperatorNamespace = ''submariner-operator'',
      UnsortedList = (\<lambda>s. s)\<rparr>"

definition example_world :: "string list world" where
  "example_world = \<lparr>cluster = [], trace = []\<rparr>"





text \<open>
  For the gather command: two known types and four known modules, one cluster context,
  a collector that records the context it was called for, and a reading of the clock.
\<close>

definition example_gather :: "(string list, string) gather_collaborators" where
  "example_gather =
     \<lparr>gather_AllTypes = [''logs'', ''resources''],
      gather_AllModules = [''connectivity'', ''service-discovery'', ''broker'', ''operator''],
      RunOnAllContexts = (\<lambda>function w. function ''cluster1'' ''submariner-operator'' w),
      gather_Data = (\<lambda>clusterInfo options w. (None, w @ [clusterInfo]))\<rparr>"

definition example_gather_options :: Options where
  "example_gather_options =
     \<lparr>Types = [''logs''], Modules = [''connectivity''], Directory = [],
      IncludeSensitiveData = False\<rparr>"

definition example_time :: Time where
  "example_time =
     \<lparr>Year = 2023, Month = 4, Day = 5, Hour = 6, Minute = 7, Second = 8,
      Nanosecond = 123456789\<rparr>"


section \<open>Traces and fail-fast runs\<close>

lemma calls_of_append: "calls_of (xs @ ys) = calls_of xs @ calls_of ys"
  by (induction xs rule: calls_of.induct) simp_all

lemma results_of_append: "results_of (xs @ ys) = results_of xs @ results_of ys"
  by (simp add: results_of_def calls_of_append)

lemma new_events_append: "trace w' = trace w @ es \<Longrightarrow> new_events w w' = es"
  by (simp add: new_events_def)

lemma checkGlobalnetConfig_enabled:
  "checkGlobalnetConfig env options = (err, options') \<Longrightarrow>
   GlobalnetEnabled (BrokerSpec options') = GlobalnetEnabled (BrokerSpec options)"
  by (auto simp: checkGlobalnetConfig_def Let_def split: if_splits prod.splits)

lemma fail_fast_run_failed:
  "fail_fast_run ctx ss (Some x) rs \<Longrightarrow> fail_fast_run ctx (ss @ ss') (Some x) rs"
  by (induction ctx ss "Some x" rs rule: fail_fast_run.induct) auto

lemma fail_fast_run_continued:
  "fail_fast_run ctx ss None rs \<Longrightarrow> fail_fast_run ctx ss' r rs' \<Longrightarrow>
   fail_fast_run ctx (ss @ ss') r (rs @ rs')"
  by (induction ctx ss "None :: error option" rs rule: fail_fast_run.induct) auto

lemma fail_fast_run_prefix: "fail_fast_run ctx ss r rs \<Longrightarrow> prefix (map fst rs) ss"
  by (induction ctx ss r rs rule: fail_fast_run.induct) auto

lemma fail_fast_run_error:
  "fail_fast_run ctx ss r rs \<Longrightarrow> rs = pre @ (s, Some e) # post \<Longrightarrow>
   post = [] \<and> r = Some (Wrapf e (ctx s)) \<and> (\<forall>x \<in> set pre. snd x = None)"
proof (induction ctx ss r rs arbitrary: pre rule: fail_fast_run.induct)
  case (3 ctx s0 ss r s' rest)
  then show ?case by (cases pre) auto
next
  case (4 ctx s0 ss r s' e' rest)
  then show ?case by (cases pre) auto
qed auto

lemma fail_fast_run_success:
  "fail_fast_run ctx ss None rs \<Longrightarrow> rs = map (\<lambda>s. (s, None)) ss"
  by (induction ctx ss "None :: error option" rs rule: fail_fast_run.induct) auto

lemma fail_fast_run_map:
  "fail_fast_run (ctx \<circ> f) cs r rs \<Longrightarrow>
   fail_fast_run ctx (map f cs) r (map (\<lambda>(c, x). (f c, x)) rs)"
  by (induction "ctx \<circ> f" cs r rs rule: fail_fast_run.induct) auto

lemma deploy_outcomes:
  assumes "deploy env options w = (r, w')"
  shows "\<exists>es. trace w' = trace w @ es \<and>
           fail_fast_run (context_of \<circ> step_of) (deploy_calls env options) r (calls_of es)"
  using assms
  unfolding deploy_def deploy_body_def invoke_def status_Start_def status_End_def
    status_Error_def Let_def deploy_calls_def
  by (auto split: prod.splits option.splits if_splits)

lemma Broker_invalid_components:
  assumes "isValidComponents env (sets_New (Components (BrokerSpec options))) = Some e"
  shows "Broker env options w =
           (Some (Wrapf e ''invalid components parameter''), options,
            w\<lparr>trace := trace w @ [Failure (Wrapf e ''invalid components parameter''), End]\<rparr>)"
  by (simp add: Broker_def Let_def assms status_Error_def)

lemma Broker_invalid_globalnet:
  assumes "isValidComponents env (sets_New (Components (BrokerSpec options))) = None"
    and "checkGlobalnetConfig env options = (Some e, options1)"
  shows "Broker env options w =
           (Some (Wrapf e ''invalid GlobalCIDR configuration''), options1,
            w\<lparr>trace := trace w @ [Failure (Wrapf e ''invalid GlobalCIDR configuration''), End]\<rparr>)"
  by (simp add: Broker_def Let_def assms status_Error_def)

lemma Broker_valid:
  assumes "isValidComponents env (sets_New (Components (BrokerSpec options))) = None"
    and "checkGlobalnetConfig env options = (None, options1)"
  shows "Broker env options w =
     (case deploy env options1 w of
        (Some err, w1) \<Rightarrow> (Some err, options1, w1)
      | (None, w1) \<Rightarrow>
          (case (if GlobalnetEnabled (BrokerSpec options1)
                 then invoke env (Call_ValidateExistingGlobalNetworks (BrokerNamespace options1)) w1
                 else (None, w1)) of
             (Some err, w2) \<Rightarrow>
               (case status_Error (Some err)
                       ''error validating existing globalCIDR configmap'' w2 of
                  (r, w') \<Rightarrow> (r, options1, w'))
           | (None, w2) \<Rightarrow>
               (case invoke env
                       (Call_CreateConfigMap
                          (GlobalnetEnabled (BrokerSpec options1))
                          (GlobalnetCIDRRange (BrokerSpec options1))
                          (DefaultGlobalnetClusterSize (BrokerSpec options1))
                          (BrokerNamespace options1)) w2 of
                  (Some err, w3) \<Rightarrow>
                    (case status_Error (Some err)
                            ''error creating globalCIDR configmap on Broker'' w3 of
                       (r, w') \<Rightarrow> (r, options1, w'))
                | (None, w3) \<Rightarrow> (None, options1, w3))))"
  by (simp add: Broker_def Let_def assms)

lemma globalnet_outcomes:
  assumes "(case (if GlobalnetEnabled (BrokerSpec options1)
                 then invoke env (Call_ValidateExistingGlobalNetworks (BrokerNamespace options1)) w1
                 else (None, w1)) of
             (Some err, w2) \<Rightarrow>
               (case status_Error (Some err)
                       ''error validating existing globalCIDR configmap'' w2 of
                  (r, w') \<Rightarrow> (r, options1, w'))
           | (None, w2) \<Rightarrow>
               (case invoke env
                       (Call_CreateConfigMap
                          (GlobalnetEnabled (BrokerSpec options1))
                          (GlobalnetCIDRRange (BrokerSpec options1))
                          (DefaultGlobalnetClusterSize (BrokerSpec options1))
                          (BrokerNamespace options1)) w2 of
                  (Some err, w3) \<Rightarrow>
                    (case status_Error (Some err)
                            ''error creating globalCIDR configmap on Broker'' w3 of
                       (r, w') \<Rightarrow> (r, options1, w'))
                | (None, w3) \<Rightarrow> (None, options1, w3))) = (r, options', w')"
  shows "\<exists>es. trace w' = trace w1 @ es \<and> options' = options1 \<and>
           fail_fast_run (context_of \<circ> step_of) (globalnet_calls options1) r (calls_of es)"
  using assms
  unfolding invoke_def status_Error_def globalnet_calls_def
  by (auto split: prod.splits option.splits if_splits)

lemma Broker_valid_outcomes:
  assumes v1: "isValidComponents env (sets_New (Components (BrokerSpec options))) = None"
    and v2: "checkGlobalnetConfig env options = (None, options1)"
    and run: "Broker env options w = (r, options', w')"
  shows "options' = options1 \<and>
     fail_fast_run (context_of \<circ> step_of)
       (deploy_calls env options1 @ globalnet_calls options1) r (calls_of (new_events w w'))"
proof -
  obtain rd wd where d: "deploy env options1 w = (rd, wd)"
    by (cases "deploy env options1 w")
  from deploy_outcomes [OF d] obtain es where
    es: "trace wd = trace w @ es" and
    shape: "fail_fast_run (context_of \<circ> step_of) (deploy_calls env options1) rd (calls_of es)"
    by blast
  show ?thesis
  proof (cases rd)
    case (Some err)
    with run d have eqs: "r = Some err" "options' = options1" "w' = wd"
      by (simp_all add: Broker_valid [OF v1 v2])
    with es have "new_events w w' = es" by (simp add: new_events_append)
    from shape Some
    have "fail_fast_run (context_of \<circ> step_of) (deploy_calls env options1) (Some err) (calls_of es)"
      by simp
    from fail_fast_run_failed [OF this] have "fail_fast_run (context_of \<circ> step_of)
       (deploy_calls env options1 @ globalnet_calls options1) (Some err) (calls_of es)" .
    with eqs \<open>new_events w w' = es\<close> show ?thesis by simp
  next
    case None
    from run d None have "(case (if GlobalnetEnabled (BrokerSpec options1)
                 then invoke env (Call_ValidateExistingGlobalNetworks (BrokerNamespace options1)) wd
                 else (None, wd)) of
             (Some err, w2) \<Rightarrow>
               (case status_Error (Some err)
                       ''error validating existing globalCIDR configmap'' w2 of
                  (r, w') \<Rightarrow> (r, options1, w'))
           | (None, w2) \<Rightarrow>
               (case invoke env
                       (Call_CreateConfigMap
                          (GlobalnetEnabled (BrokerSpec options1))
                          (GlobalnetCIDRRange (BrokerSpec options1))
                          (DefaultGlobalnetClusterSize (BrokerSpec options1))
                          (BrokerNamespace options1)) w2 of
                  (Some err, w3) \<Rightarrow>
                    (case status_Error (Some err)
                            ''error creating globalCIDR configmap on Broker'' w3 of
                       (r, w') \<Rightarrow> (r, options1, w'))
                | (None, w3) \<Rightarrow> (None, options1, w3))) = (r, options', w')"
      by (simp add: Broker_valid [OF v1 v2])
    from globalnet_outcomes [OF this] obtain gs where
      gs: "trace w' = trace wd @ gs" and o: "options' = options1" and
      gshape: "fail_fast_run (context_of \<circ> step_of) (globalnet_calls options1) r (calls_of gs)"
      by blast
    from es gs have ne: "new_events w w' = es @ gs" by (simp add: new_events_append)
    from shape None
    have "fail_fast_run (context_of \<circ> step_of) (deploy_calls env options1) None (calls_of es)"
      by simp
    from fail_fast_run_continued [OF this gshape] have "fail_fast_run (context_of \<circ> step_of)
       (deploy_calls env options1 @ globalnet_calls options1) r (calls_of (new_events w w'))"
      unfolding ne calls_of_append .
    with o show ?thesis by simp
  qed
qed

lemma pipeline_steps:
  "checkGlobalnetConfig env options = (err, options1) \<Longrightarrow>
   map step_of (deploy_calls env options1 @ globalnet_calls options1) =
     [RBAC, OPERATOR, BROKER_OBJECT] @
     (if GlobalnetEnabled (BrokerSpec options) then [GLOBALNET_VALIDATE] else []) @
     [GLOBALNET_CONFIGMAP]"
  by (drule checkGlobalnetConfig_enabled) (simp add: deploy_calls_def globalnet_calls_def)

lemma Broker_outcomes:
  assumes run: "Broker env options w = (r, options', w')"
  shows "(calls_of (new_events w w') = [] \<and> r \<noteq> None) \<or>
     fail_fast_run (context_of \<circ> step_of)
       (deploy_calls env options' @ globalnet_calls options') r (calls_of (new_events w w')) \<and>
     fst (checkGlobalnetConfig env options) = None \<and>
     snd (checkGlobalnetConfig env options) = options'"
proof (cases "isValidComponents env (sets_New (Components (BrokerSpec options)))")
  case (Some e)
  from run show ?thesis
    unfolding Broker_invalid_components [OF Some]
    by (auto simp: new_events_def)
next
  case None
  obtain err options1 where c: "checkGlobalnetConfig env options = (err, options1)"
    by (cases "checkGlobalnetConfig env options")
  show ?thesis
  proof (cases err)
    case (Some e)
    from run show ?thesis
      unfolding Broker_invalid_globalnet [OF None c [unfolded Some]]
      by (auto simp: new_events_def)
  next
    case n: None
    from Broker_valid_outcomes [OF None c [unfolded n] run] c n show ?thesis by simp
  qed
qed

lemma Broker_step_outcomes:
  assumes run: "Broker env options w = (r, options', w')"
  shows "(results_of (new_events w w') = [] \<and> r \<noteq> None) \<or>
     fail_fast_run context_of
       ([RBAC, OPERATOR, BROKER_OBJECT] @
        (if GlobalnetEnabled (BrokerSpec options) then [GLOBALNET_VALIDATE] else []) @
        [GLOBALNET_CONFIGMAP]) r (results_of (new_events w w'))"
proof -
  from Broker_outcomes [OF run] consider
    (invalid) "calls_of (new_events w w') = []" "r \<noteq> None"
    | (ran) "fail_fast_run (context_of \<circ> step_of)
       (deploy_calls env options' @ globalnet_calls options') r (calls_of (new_events w w'))"
      "checkGlobalnetConfig env options = (None, options')"
    by (auto simp: prod_eq_iff)
  then show ?thesis
  proof cases
    case invalid
    then show ?thesis by (simp add: results_of_def)
  next
    case ran
    from fail_fast_run_map [OF ran(1)] show ?thesis
      unfolding pipeline_steps [OF ran(2)] results_of_def by (rule disjI2)
  qed
qed

lemmas example_defs = example_failure_def example_options_def example_collaborators_def
  example_world_def

lemmas eval_defs = Broker_def deploy_def deploy_body_def invoke_def status_Start_def
  status_End_def status_Error_def checkGlobalnetConfig_def isValidComponents_def
  sets_New_def sets_Len_def sets_Has_def sets_Insert_def ValidComponents_def
  component_ServiceDiscovery_def component_Connectivity_def component_Globalnet_def
  new_events_def steps_run_def results_of_def Let_def


section \<open>The broker deployment pipeline\<close>

text \<open>
  C1: the pipeline takes its steps in the order RBAC setup, operator deployment, broker
  object deployment, global-address configuration (the validation of the existing
  configuration when globalnet is enabled, then the configuration record), so the steps
  of every run are an initial part of that sequence, and all of it when the run returns
  nil. It is fail-fast: when a step returns an error, that step is the last one taken,
  every step before it returned nil, and the run returns the error under the message of
  the failing step. In particular, when the operator step returns an error, the broker
  object step and both global-address calls are absent from the run.
\<close>

theorem Broker_pipeline_fail_fast:
  assumes run: "Broker env options w = (r, options', w')"
  shows "prefix (steps_run w w')
           ([RBAC, OPERATOR, BROKER_OBJECT] @
            (if GlobalnetEnabled (BrokerSpec options) then [GLOBALNET_VALIDATE] else []) @
            [GLOBALNET_CONFIGMAP]) \<and>
         (r = None \<longrightarrow>
            steps_run w w' =
              [RBAC, OPERATOR, BROKER_OBJECT] @
              (if GlobalnetEnabled (BrokerSpec options) then [GLOBALNET_VALIDATE] else []) @
              [GLOBALNET_CONFIGMAP]) \<and>
         (\<forall>pre s e post. results_of (new_events w w') = pre @ (s, Some e) # post \<longrightarrow>
            post = [] \<and> (\<forall>x \<in> set pre. snd x = None) \<and>
            r = Some (Wrapf e (context_of s))) \<and>
         (\<forall>e. (OPERATOR, Some e) \<in> set (results_of (new_events w w')) \<longrightarrow>
            BROKER_OBJECT \<notin> set (steps_run w w') \<and>
            GLOBALNET_VALIDATE \<notin> set (steps_run w w') \<and>
            GLOBALNET_CONFIGMAP \<notin> set (steps_run w w'))"
proof -
  let ?rs = "results_of (new_events w w')"
  let ?ss = "[RBAC, OPERATOR, BROKER_OBJECT] @
            (if GlobalnetEnabled (BrokerSpec options) then [GLOBALNET_VALIDATE] else []) @
            [GLOBALNET_CONFIGMAP]"
  from Broker_step_outcomes [OF run] consider
    (invalid) "?rs = []" "r \<noteq> None" | (ran) "fail_fast_run context_of ?ss r ?rs" by blast
  then show ?thesis
  proof cases
    case invalid
    then show ?thesis by (simp add: steps_run_def)
  next
    case ran
    have order: "prefix (steps_run w w') ?ss"
      unfolding steps_run_def using ran by (rule fail_fast_run_prefix)
    have all: "steps_run w w' = ?ss" if "r = None"
    proof -
      from ran that have "fail_fast_run context_of ?ss None ?rs" by simp
      then have "?rs = map (\<lambda>s. (s, None)) ?ss" by (rule fail_fast_run_success)
      then have "map fst ?rs = map fst (map (\<lambda>s. (s, None :: error option)) ?ss)" by simp
      also have "\<dots> = ?ss" by (simp add: comp_def)
      finally show ?thesis by (simp add: steps_run_def)
    qed
    have stop: "post = [] \<and> (\<forall>x \<in> set pre. snd x = None) \<and> r = Some (Wrapf e (context_of s))"
      if "?rs = pre @ (s, Some e) # post" for pre s e post
      using fail_fast_run_error [OF ran that] by simp
    have op: "BROKER_OBJECT \<notin> set (steps_run w w') \<and>
            GLOBALNET_VALIDATE \<notin> set (steps_run w w') \<and>
            GLOBALNET_CONFIGMAP \<notin> set (steps_run w w')"
      if "(OPERATOR, Some e) \<in> set ?rs" for e
    proof -
      from that obtain pre post where sp: "?rs = pre @ (OPERATOR, Some e) # post"
        by (auto dest: split_list)
      from stop [OF sp] have post: "post = []" by simp
      have steps: "steps_run w w' = map fst pre @ [OPERATOR]"
        by (simp add: steps_run_def sp post)
      from order [unfolded steps] obtain zs where
        zs: "?ss = (map fst pre @ [OPERATOR]) @ zs"
        by (auto simp: prefix_def)
      then have "map fst pre = [RBAC]"
        by (auto simp: Cons_eq_append_conv split: if_splits)
      with steps show ?thesis by simp
    qed
    from order all stop op show ?thesis by blast
  qed
qed

theorem Broker_pipeline_fail_fast_witness:
  "(OPERATOR, Some example_failure) \<in>
     set (results_of (new_events example_world
       (snd (snd (Broker
          (example_collaborators\<lparr>operator_Ensure := \<lambda>ns img debug c. (Some example_failure, c)\<rparr>)
          example_options example_world))))) \<and>
   BROKER_OBJECT \<notin>
     set (steps_run example_world
       (snd (snd (Broker
          (example_collaborators\<lparr>operator_Ensure := \<lambda>ns img debug c. (Some example_failure, c)\<rparr>)
          example_options example_world)))) \<and>
   GLOBALNET_CONFIGMAP \<notin>
     set (steps_run example_world
       (snd (snd (Broker
          (example_collaborators\<lparr>operator_Ensure := \<lambda>ns img debug c. (Some example_failure, c)\<rparr>)
          example_options example_world))))"
proof -
  let ?env = "example_collaborators\<lparr>operator_Ensure := \<lambda>ns img debug c. (Some example_failure, c)\<rparr>"
  let ?run = "Broker ?env example_options example_world"
  have run: "?run = (fst ?run, fst (snd ?run), snd (snd ?run))" by simp
  have failed: "(OPERATOR, Some example_failure) \<in>
      set (results_of (new_events example_world (snd (snd ?run))))"
    by (simp add: eval_defs example_defs)
  with Broker_pipeline_fail_fast [OF run] show ?thesis by blast
qed

section \<open>Component selection\<close>

lemma isValidComponents_loop_None:
  "isValidComponents_loop valid xs = None \<longleftrightarrow> set xs \<subseteq> set valid"
  by (induction xs) (auto simp: sets_Has_def)

lemma isValidComponents_loop_Some:
  "isValidComponents_loop valid xs = Some e \<Longrightarrow>
   \<exists>c. c \<in> set xs \<and> c \<notin> set valid \<and> e = Errorf ''unknown component: %s'' [c]"
  by (induction xs) (auto simp: sets_Has_def split: if_splits)

lemma set_ValidComponents:
  "set (sets_New ValidComponents) = {''service-discovery'', ''connectivity''}"
  by (simp add: sets_New_def ValidComponents_def component_ServiceDiscovery_def
      component_Connectivity_def)

lemma isValidComponents_empty:
  "isValidComponents env [] =
     Some (Errorf ''at least one component must be provided for deployment'' [])"
  by (simp add: isValidComponents_def sets_Len_def)

lemma isValidComponents_nonempty:
  "S \<noteq> [] \<Longrightarrow> isValidComponents env S =
     isValidComponents_loop (sets_New ValidComponents) (UnsortedList env S)"
  by (simp add: isValidComponents_def sets_Len_def Let_def)

lemma isValidComponents_accepts:
  assumes "set (UnsortedList env S) = set S"
  shows "isValidComponents env S = None \<longleftrightarrow>
           S \<noteq> [] \<and> set S \<subseteq> {''service-discovery'', ''connectivity''}"
proof (cases "S = []")
  case True
  then show ?thesis by (simp add: isValidComponents_empty)
next
  case False
  then show ?thesis
    by (simp only: isValidComponents_nonempty isValidComponents_loop_None assms
        set_ValidComponents simp_thms)
qed

lemma isValidComponents_rejects:
  assumes "set (UnsortedList env S) = set S" and "isValidComponents env S = Some e"
  shows "(S = [] \<and> e = Errorf ''at least one component must be provided for deployment'' []) \<or>
         (\<exists>c. c \<in> set S \<and> c \<notin> {''service-discovery'', ''connectivity''} \<and>
              e = Errorf ''unknown component: %s'' [c])"
proof (cases "S = []")
  case True
  with assms(2) show ?thesis by (simp add: isValidComponents_empty)
next
  case False
  with assms(2) have "isValidComponents_loop (sets_New ValidComponents) (UnsortedList env S) = Some e"
    by (simp add: isValidComponents_nonempty)
  from isValidComponents_loop_Some [OF this] show ?thesis
    unfolding assms(1) set_ValidComponents by blast
qed

text \<open>
  C2: for every component set \<open>S\<close> (whatever the order in which its members are ranged
  over), \<^verbatim>\<open>isValidComponents\<close> returns nil exactly when \<open>S\<close> is not empty and all its
  members are among \<^verbatim>\<open>service-discovery\<close> and \<^verbatim>\<open>connectivity\<close>. For the empty set it
  returns the error that at least one component must be provided; when some member is
  unknown, the error names a member of \<open>S\<close> that is unknown. The function takes the set
  and returns the error and nothing else: it has no effect.
\<close>

theorem isValidComponents_accepts_iff:
  assumes "set (UnsortedList env S) = set S"
  shows "(isValidComponents env S = None \<longleftrightarrow>
            S \<noteq> [] \<and> set S \<subseteq> {''service-discovery'', ''connectivity''}) \<and>
         (S = [] \<longrightarrow> isValidComponents env S =
            Some (Errorf ''at least one component must be provided for deployment'' [])) \<and>
         (S \<noteq> [] \<and> \<not> set S \<subseteq> {''service-discovery'', ''connectivity''} \<longrightarrow>
            (\<exists>c. c \<in> set S \<and> c \<notin> {''service-discovery'', ''connectivity''} \<and>
                 isValidComponents env S = Some (Errorf ''unknown component: %s'' [c])))"
proof -
  have unknown: "\<exists>c. c \<in> set S \<and> c \<notin> {''service-discovery'', ''connectivity''} \<and>
      isValidComponents env S = Some (Errorf ''unknown component: %s'' [c])"
    if ne: "S \<noteq> []" and bad: "\<not> set S \<subseteq> {''service-discovery'', ''connectivity''}"
  proof -
    from bad isValidComponents_accepts [OF assms] obtain e where
      e: "isValidComponents env S = Some e" by auto
    from isValidComponents_rejects [OF assms e] ne e show ?thesis by auto
  qed
  from isValidComponents_accepts [OF assms] unknown show ?thesis
    by (simp add: isValidComponents_empty)
qed

theorem isValidComponents_accepts_iff_witness:
  "set (UnsortedList example_collaborators [''connectivity'']) = set [''connectivity''] \<and>
   isValidComponents example_collaborators [''connectivity''] = None \<and>
   set (UnsortedList example_collaborators [''connectivity'', ''gateway'']) =
     set [''connectivity'', ''gateway''] \<and>
   isValidComponents example_collaborators [''connectivity'', ''gateway''] =
     Some (Errorf ''unknown component: %s'' [''gateway''])"
proof -
  have o1: "set (UnsortedList example_collaborators [''connectivity'']) = set [''connectivity'']"
    by (simp add: example_collaborators_def)
  have o2: "set (UnsortedList example_collaborators [''connectivity'', ''gateway'']) =
     set [''connectivity'', ''gateway'']"
    by (simp add: example_collaborators_def)
  from isValidComponents_accepts_iff [OF o1]
  have a: "isValidComponents example_collaborators [''connectivity''] = None" by simp
  from isValidComponents_accepts_iff [OF o2]
  have "\<exists>c. c \<in> set [''connectivity'', ''gateway''] \<and>
      c \<notin> {''service-discovery'', ''connectivity''} \<and>
      isValidComponents example_collaborators [''connectivity'', ''gateway''] =
        Some (Errorf ''unknown component: %s'' [c])" by simp
  then have b: "isValidComponents example_collaborators [''connectivity'', ''gateway''] =
     Some (Errorf ''unknown component: %s'' [''gateway''])" by auto
  from o1 a o2 b show ?thesis by blast
qed



lemma fail_fast_run_head:
  "fail_fast_run ctx (s # ss) r rs \<Longrightarrow> \<exists>x rest. rs = (s, x) # rest"
proof (cases rs)
  case Nil
  moreover assume "fail_fast_run ctx (s # ss) r rs"
  ultimately show ?thesis by simp
next
  case (Cons a rest)
  obtain s' x where a: "a = (s', x)" by (cases a)
  assume "fail_fast_run ctx (s # ss) r rs"
  with Cons a have "s' = s" by (cases x) simp_all
  with Cons a show ?thesis by simp
qed

lemma fail_fast_run_returned:
  "fail_fast_run ctx ss (Some x) rs \<Longrightarrow> \<exists>s e. s \<in> set ss \<and> x = Wrapf e (ctx s)"
  by (induction ctx ss "Some x" rs rule: fail_fast_run.induct) auto

lemma context_of_not_components: "context_of s \<noteq> ''invalid components parameter''"
  by (cases s) simp_all

lemma checkGlobalnetConfig_keeps:
  "checkGlobalnetConfig env options = (err, options') \<Longrightarrow>
   Components (BrokerSpec options') = Components (BrokerSpec options) \<and>
   BrokerNamespace options' = BrokerNamespace options"
  by (auto simp: checkGlobalnetConfig_def Let_def split: if_splits prod.splits)

lemma Broker_accepts_components:
  assumes v1: "isValidComponents env (sets_New (Components (BrokerSpec options))) = None"
  shows "fst (Broker env options w) \<noteq> Some (Wrapf e ''invalid components parameter'')"
proof -
  obtain err options1 where c: "checkGlobalnetConfig env options = (err, options1)"
    by (cases "checkGlobalnetConfig env options")
  show ?thesis
  proof (cases err)
    case (Some e')
    show ?thesis
      unfolding Broker_invalid_globalnet [OF v1 c [unfolded Some]] by simp
  next
    case None
    let ?run = "Broker env options w"
    have run: "?run = (fst ?run, fst (snd ?run), snd (snd ?run))" by simp
    from Broker_valid_outcomes [OF v1 c [unfolded None] run]
    have ff: "fail_fast_run (context_of \<circ> step_of)
        (deploy_calls env options1 @ globalnet_calls options1) (fst ?run)
        (calls_of (new_events w (snd (snd ?run))))"
      by (rule conjunct2)
    show ?thesis
    proof
      assume a: "fst ?run = Some (Wrapf e ''invalid components parameter'')"
      from fail_fast_run_returned [OF ff [unfolded a]] obtain s e' where
        "Wrapf e ''invalid components parameter'' = Wrapf e' ((context_of \<circ> step_of) s)"
        by blast
      then have "context_of (step_of s) = ''invalid components parameter''" by simp
      with context_of_not_components show False by blast
    qed
  qed
qed

lemma Broker_reaches_RBAC:
  assumes v1: "isValidComponents env (sets_New (Components (BrokerSpec options))) = None"
    and v2: "fst (checkGlobalnetConfig env options) = None"
  shows "\<exists>x rest. calls_of (new_events w (snd (snd (Broker env options w)))) =
           (Call_broker_Ensure (Components (BrokerSpec options)) False (BrokerNamespace options),
            x) # rest"
proof -
  from v2 have c: "checkGlobalnetConfig env options =
      (None, snd (checkGlobalnetConfig env options))"
    by (simp add: prod_eq_iff)
  let ?o1 = "snd (checkGlobalnetConfig env options)"
  let ?run = "Broker env options w"
  have run: "?run = (fst ?run, fst (snd ?run), snd (snd ?run))" by simp
  from Broker_valid_outcomes [OF v1 c run]
  have "fail_fast_run (context_of \<circ> step_of)
        (deploy_calls env ?o1 @ globalnet_calls ?o1) (fst ?run)
        (calls_of (new_events w (snd (snd ?run))))"
    by (rule conjunct2)
  then have "fail_fast_run (context_of \<circ> step_of)
        (Call_broker_Ensure (Components (BrokerSpec ?o1)) False (BrokerNamespace ?o1) #
         tl (deploy_calls env ?o1 @ globalnet_calls ?o1)) (fst ?run)
        (calls_of (new_events w (snd (snd ?run))))"
    by (simp add: deploy_calls_def)
  from fail_fast_run_head [OF this] show ?thesis
    unfolding checkGlobalnetConfig_keeps [OF c, THEN conjunct1]
      checkGlobalnetConfig_keeps [OF c, THEN conjunct2] .
qed



text \<open>
  C10: \<^verbatim>\<open>Broker\<close> builds a set from the components list before it validates: the set
  has the members of the list, each once, and its length is the number of distinct
  members. The verdict depends on the distinct members only. Two lists with the same
  members are accepted or rejected alike; a list is accepted exactly when it has a
  member and all members are known, duplicates or not; an error is either the one for
  the empty list or names an unknown member, never a duplicate. In \<^verbatim>\<open>Broker\<close>: an error
  of the validation of that set comes back under the message for invalid components;
  for a list whose distinct members are known, with or without duplicates, \<^verbatim>\<open>Broker\<close>
  never returns an error under that message, and when the globalnet validation passes
  too it goes on to the RBAC step, which is given the list as it is.
\<close>

theorem components_validated_as_set:
  assumes "set (UnsortedList env (sets_New xs)) = set (sets_New xs)"
    and "set (UnsortedList env (sets_New ys)) = set (sets_New ys)"
    and "set xs = set ys"
  shows "(distinct (sets_New xs) \<and> set (sets_New xs) = set xs \<and>
          sets_Len (sets_New xs) = card (set xs)) \<and>
         (isValidComponents env (sets_New xs) = None \<longleftrightarrow>
            isValidComponents env (sets_New ys) = None) \<and>
         (isValidComponents env (sets_New xs) = None \<longleftrightarrow>
            set xs \<noteq> {} \<and> set xs \<subseteq> {''service-discovery'', ''connectivity''}) \<and>
         (\<forall>e. isValidComponents env (sets_New xs) = Some e \<longrightarrow>
            (xs = [] \<and>
             e = Errorf ''at least one component must be provided for deployment'' []) \<or>
            (\<exists>c. c \<in> set xs \<and> c \<notin> {''service-discovery'', ''connectivity''} \<and>
                 e = Errorf ''unknown component: %s'' [c])) \<and>
         (\<forall>options w e. Components (BrokerSpec options) = xs \<longrightarrow>
            isValidComponents env (sets_New xs) = Some e \<longrightarrow>
            fst (Broker env options w) = Some (Wrapf e ''invalid components parameter'')) \<and>
         (\<forall>options w. Components (BrokerSpec options) = xs \<and> set xs \<noteq> {} \<and>
              set xs \<subseteq> {''service-discovery'', ''connectivity''} \<longrightarrow>
            (\<forall>e. fst (Broker env options w) \<noteq>
                   Some (Wrapf e ''invalid components parameter'')) \<and>
            (fst (checkGlobalnetConfig env options) = None \<longrightarrow>
               (\<exists>x rest. calls_of (new_events w (snd (snd (Broker env options w)))) =
                   (Call_broker_Ensure xs False (BrokerNamespace options), x) # rest)))"
proof -
  have sx: "set (sets_New xs) = set xs" and sy: "set (sets_New ys) = set ys"
    by (simp_all add: sets_New_def)
  have nx: "sets_New xs = [] \<longleftrightarrow> xs = []" and ny: "sets_New ys = [] \<longleftrightarrow> ys = []"
    by (simp_all add: sets_New_def)
  have dedup: "distinct (sets_New xs) \<and> set (sets_New xs) = set xs \<and>
          sets_Len (sets_New xs) = card (set xs)"
    by (simp add: sets_New_def sets_Len_def length_remdups_card_conv)
  have ax: "isValidComponents env (sets_New xs) = None \<longleftrightarrow>
      set xs \<noteq> {} \<and> set xs \<subseteq> {''service-discovery'', ''connectivity''}"
    using isValidComponents_accepts [OF assms(1)] by (simp add: sx nx)
  have ay: "isValidComponents env (sets_New ys) = None \<longleftrightarrow>
      set ys \<noteq> {} \<and> set ys \<subseteq> {''service-discovery'', ''connectivity''}"
    using isValidComponents_accepts [OF assms(2)] by (simp add: sy ny)
  have rej: "(xs = [] \<and>
             e = Errorf ''at least one component must be provided for deployment'' []) \<or>
            (\<exists>c. c \<in> set xs \<and> c \<notin> {''service-discovery'', ''connectivity''} \<and>
                 e = Errorf ''unknown component: %s'' [c])"
    if "isValidComponents env (sets_New xs) = Some e" for e
    using isValidComponents_rejects [OF assms(1) that] by (simp add: sx nx)
  have br: "fst (Broker env options w) = Some (Wrapf e ''invalid components parameter'')"
    if "Components (BrokerSpec options) = xs" "isValidComponents env (sets_New xs) = Some e"
    for options :: BrokerOptions and w :: "'a world" and e
    using that by (simp add: Broker_invalid_components)
  have same: "isValidComponents env (sets_New xs) = None \<longleftrightarrow>
      isValidComponents env (sets_New ys) = None"
    unfolding ax ay assms(3) ..
  have valid: "isValidComponents env (sets_New (Components (BrokerSpec options))) = None"
    if "Components (BrokerSpec options) = xs \<and> set xs \<noteq> {} \<and>
              set xs \<subseteq> {''service-discovery'', ''connectivity''}"
    for options :: BrokerOptions
    using that ax by simp
  show ?thesis
  proof (intro conjI allI impI)
    from dedup show "distinct (sets_New xs)" by (elim conjE)
    from dedup show "set (sets_New xs) = set xs" by (elim conjE)
    from dedup show "sets_Len (sets_New xs) = card (set xs)" by (elim conjE)
    show "isValidComponents env (sets_New xs) = None \<longleftrightarrow>
      isValidComponents env (sets_New ys) = None" by (rule same)
    show "isValidComponents env (sets_New xs) = None \<longleftrightarrow>
      set xs \<noteq> {} \<and> set xs \<subseteq> {''service-discovery'', ''connectivity''}" by (rule ax)
  next
    fix e assume "isValidComponents env (sets_New xs) = Some e"
    then show "(xs = [] \<and>
             e = Errorf ''at least one component must be provided for deployment'' []) \<or>
            (\<exists>c. c \<in> set xs \<and> c \<notin> {''service-discovery'', ''connectivity''} \<and>
                 e = Errorf ''unknown component: %s'' [c])" by (rule rej)
  next
    fix options :: BrokerOptions and w :: "'a world" and e
    assume "Components (BrokerSpec options) = xs" "isValidComponents env (sets_New xs) = Some e"
    then show "fst (Broker env options w) = Some (Wrapf e ''invalid components parameter'')"
      by (rule br)
  next
    fix options :: BrokerOptions and w :: "'a world" and e
    assume a: "Components (BrokerSpec options) = xs \<and> set xs \<noteq> {} \<and>
              set xs \<subseteq> {''service-discovery'', ''connectivity''}"
    from valid [OF a]
    show "fst (Broker env options w) \<noteq> Some (Wrapf e ''invalid components parameter'')"
      by (rule Broker_accepts_components)
  next
    fix options :: BrokerOptions and w :: "'a world"
    assume a: "Components (BrokerSpec options) = xs \<and> set xs \<noteq> {} \<and>
              set xs \<subseteq> {''service-discovery'', ''connectivity''}"
      and g: "fst (checkGlobalnetConfig env options) = None"
    from a have xs: "Components (BrokerSpec options) = xs" by (rule conjunct1)
    from Broker_reaches_RBAC [OF valid [OF a] g, of w]
    show "\<exists>x rest. calls_of (new_events w (snd (snd (Broker env options w)))) =
                   (Call_broker_Ensure xs False (BrokerNamespace options), x) # rest"
      unfolding xs .
  qed
qed

theorem components_validated_as_set_witness:
  "Components (BrokerSpec example_options) =
     [''service-discovery'', ''connectivity'', ''service-discovery''] \<and>
   \<not> distinct (Components (BrokerSpec example_options)) \<and>
   sets_New (Components (BrokerSpec example_options)) = [''connectivity'', ''service-discovery''] \<and>
   isValidComponents example_collaborators
     (sets_New [''service-discovery'', ''connectivity'', ''service-discovery'']) = None \<and>
   fst (checkGlobalnetConfig example_collaborators example_options) = None \<and>
   (\<exists>x rest. calls_of (new_events example_world
       (snd (snd (Broker example_collaborators example_options example_world)))) =
     (Call_broker_Ensure [''service-discovery'', ''connectivity'', ''service-discovery''] False
        ''submariner-k8s-broker'', x) # rest) \<and>
   fst (Broker example_collaborators example_options example_world) = None"
proof -
  let ?xs = "[''service-discovery'', ''connectivity'', ''service-discovery'']"
  let ?ys = "[''service-discovery'', ''connectivity'']"
  have o1: "set (UnsortedList example_collaborators (sets_New ?xs)) = set (sets_New ?xs)"
    by (simp add: example_collaborators_def)
  have o2: "set (UnsortedList example_collaborators (sets_New ?ys)) = set (sets_New ?ys)"
    by (simp add: example_collaborators_def)
  have s: "set ?xs = set ?ys" by auto
  have cs: "Components (BrokerSpec example_options) = ?xs"
    by (simp add: example_options_def)
  have nd: "\<not> distinct (Components (BrokerSpec example_options))"
    by (simp add: example_options_def)
  have new: "sets_New (Components (BrokerSpec example_options)) =
      [''connectivity'', ''service-discovery'']"
    by (simp add: example_options_def sets_New_def)
  have known: "Components (BrokerSpec example_options) = ?xs \<and> set ?xs \<noteq> {} \<and>
      set ?xs \<subseteq> {''service-discovery'', ''connectivity''}"
    by (simp add: example_options_def)
  have g: "fst (checkGlobalnetConfig example_collaborators example_options) = None"
    by (simp add: checkGlobalnetConfig_def example_options_def)
  note t = components_validated_as_set [OF o1 o2 s]
  from t have acc: "isValidComponents example_collaborators (sets_New ?xs) = None \<longleftrightarrow>
      set ?xs \<noteq> {} \<and> set ?xs \<subseteq> {''service-discovery'', ''connectivity''}"
    by (elim conjE)
  from known have "set ?xs \<noteq> {} \<and> set ?xs \<subseteq> {''service-discovery'', ''connectivity''}"
    by (rule conjunct2)
  with acc have v: "isValidComponents example_collaborators (sets_New ?xs) = None"
    by (rule iffD2)
  from t have "\<forall>options w. Components (BrokerSpec options) = ?xs \<and> set ?xs \<noteq> {} \<and>
              set ?xs \<subseteq> {''service-discovery'', ''connectivity''} \<longrightarrow>
            (\<forall>e. fst (Broker example_collaborators options w) \<noteq>
                   Some (Wrapf e ''invalid components parameter'')) \<and>
            (fst (checkGlobalnetConfig example_collaborators options) = None \<longrightarrow>
               (\<exists>x rest. calls_of (new_events w (snd (snd (Broker example_collaborators options w)))) =
                   (Call_broker_Ensure ?xs False (BrokerNamespace options), x) # rest))"
    by (elim conjE)
  then have "fst (checkGlobalnetConfig example_collaborators example_options) = None \<longrightarrow>
      (\<exists>x rest. calls_of (new_events example_world
          (snd (snd (Broker example_collaborators example_options example_world)))) =
        (Call_broker_Ensure ?xs False (BrokerNamespace example_options), x) # rest)"
    using known by blast
  with g have "\<exists>x rest. calls_of (new_events example_world
          (snd (snd (Broker example_collaborators example_options example_world)))) =
        (Call_broker_Ensure ?xs False (BrokerNamespace example_options), x) # rest"
    by (rule rev_mp)
  moreover have "BrokerNamespace example_options = ''submariner-k8s-broker''"
    by (simp add: example_options_def)
  ultimately have first: "\<exists>x rest. calls_of (new_events example_world
          (snd (snd (Broker example_collaborators example_options example_world)))) =
        (Call_broker_Ensure ?xs False ''submariner-k8s-broker'', x) # rest"
    by simp
  have r: "fst (Broker example_collaborators example_options example_world) = None"
    by (simp add: eval_defs example_defs)
  from cs nd new v g first r show ?thesis by (intro conjI)
qed

section \<open>Globalnet configuration\<close>

lemma checkGlobalnetConfig_off:
  "\<not> GlobalnetEnabled (BrokerSpec options) \<Longrightarrow> checkGlobalnetConfig env options = (None, options)"
  by (simp add: checkGlobalnetConfig_def)

text \<open>
  C4: when globalnet is not enabled, \<^verbatim>\<open>checkGlobalnetConfig\<close> returns nil and leaves the
  options as they are, whatever the CIDR range and the cluster size are and whatever
  the two globalnet checks would answer: it does not consult them.
\<close>

theorem checkGlobalnetConfig_disabled:
  assumes "\<not> GlobalnetEnabled (BrokerSpec options)"
  shows "checkGlobalnetConfig env options = (None, options) \<and>
         (\<forall>cidr n.
            checkGlobalnetConfig env
              (options\<lparr>BrokerSpec := (BrokerSpec options)
                 \<lparr>GlobalnetCIDRRange := cidr, DefaultGlobalnetClusterSize := n\<rparr>\<rparr>) =
            (None, options\<lparr>BrokerSpec := (BrokerSpec options)
                 \<lparr>GlobalnetCIDRRange := cidr, DefaultGlobalnetClusterSize := n\<rparr>\<rparr>))"
  using assms by (simp add: checkGlobalnetConfig_off)

theorem checkGlobalnetConfig_disabled_witness:
  "\<not> GlobalnetEnabled (BrokerSpec example_options) \<and>
   checkGlobalnetConfig
     (example_collaborators
        \<lparr>globalnet_GetValidClusterSize := \<lambda>cidr n. (0, Some example_failure),
         globalnet_IsValidCIDR := \<lambda>cidr. Some example_failure\<rparr>)
     (example_options\<lparr>BrokerSpec := (BrokerSpec example_options)
        \<lparr>GlobalnetCIDRRange := ''not a CIDR'', DefaultGlobalnetClusterSize := 3\<rparr>\<rparr>) =
   (None, example_options\<lparr>BrokerSpec := (BrokerSpec example_options)
        \<lparr>GlobalnetCIDRRange := ''not a CIDR'', DefaultGlobalnetClusterSize := 3\<rparr>\<rparr>)"
proof -
  have off: "\<not> GlobalnetEnabled (BrokerSpec example_options)"
    by (simp add: example_options_def)
  from checkGlobalnetConfig_disabled [OF off] off show ?thesis by blast
qed

text \<open>
  C8: when globalnet is enabled, \<^verbatim>\<open>checkGlobalnetConfig\<close> writes the cluster size that
  \<^verbatim>\<open>GetValidClusterSize\<close> returns into \<^verbatim>\<open>DefaultGlobalnetClusterSize\<close> and changes no
  other field of the options, whether the validation then succeeds or fails. The
  returned error is that of \<^verbatim>\<open>GetValidClusterSize\<close>, or else that of \<^verbatim>\<open>IsValidCIDR\<close>.
\<close>

theorem checkGlobalnetConfig_frame:
  assumes "GlobalnetEnabled (BrokerSpec options)"
    and "checkGlobalnetConfig env options = (err, options')"
  shows "options' =
           options\<lparr>BrokerSpec := (BrokerSpec options)
             \<lparr>DefaultGlobalnetClusterSize :=
                fst (globalnet_GetValidClusterSize env (GlobalnetCIDRRange (BrokerSpec options))
                       (DefaultGlobalnetClusterSize (BrokerSpec options)))\<rparr>\<rparr> \<and>
         err =
           (case snd (globalnet_GetValidClusterSize env (GlobalnetCIDRRange (BrokerSpec options))
                        (DefaultGlobalnetClusterSize (BrokerSpec options))) of
              Some e \<Rightarrow> Some e
            | None \<Rightarrow> globalnet_IsValidCIDR env (GlobalnetCIDRRange (BrokerSpec options))) \<and>
         OperatorDebug options' = OperatorDebug options \<and>
         Repository options' = Repository options \<and>
         ImageVersion options' = ImageVersion options \<and>
         BrokerNamespace options' = BrokerNamespace options \<and>
         Components (BrokerSpec options') = Components (BrokerSpec options) \<and>
         GlobalnetEnabled (BrokerSpec options') = GlobalnetEnabled (BrokerSpec options) \<and>
         GlobalnetCIDRRange (BrokerSpec options') = GlobalnetCIDRRange (BrokerSpec options)"
  using assms
  by (auto simp: checkGlobalnetConfig_def Let_def split: prod.splits if_splits option.splits)

theorem checkGlobalnetConfig_frame_witness:
  "GlobalnetEnabled (BrokerSpec (example_options\<lparr>BrokerSpec :=
      (BrokerSpec example_options)\<lparr>GlobalnetEnabled := True\<rparr>\<rparr>)) \<and>
   checkGlobalnetConfig example_collaborators
     (example_options\<lparr>BrokerSpec := (BrokerSpec example_options)\<lparr>GlobalnetEnabled := True\<rparr>\<rparr>) =
   (None, example_options\<lparr>BrokerSpec := (BrokerSpec example_options)
      \<lparr>GlobalnetEnabled := True, DefaultGlobalnetClusterSize := 65536\<rparr>\<rparr>)"
proof -
  let ?o = "example_options\<lparr>BrokerSpec := (BrokerSpec example_options)\<lparr>GlobalnetEnabled := True\<rparr>\<rparr>"
  have on: "GlobalnetEnabled (BrokerSpec ?o)" by simp
  have run: "checkGlobalnetConfig example_collaborators ?o =
      (fst (checkGlobalnetConfig example_collaborators ?o),
       snd (checkGlobalnetConfig example_collaborators ?o))" by simp
  from checkGlobalnetConfig_frame [OF on run]
  have "snd (checkGlobalnetConfig example_collaborators ?o) =
      example_options\<lparr>BrokerSpec := (BrokerSpec example_options)
        \<lparr>GlobalnetEnabled := True, DefaultGlobalnetClusterSize := 65536\<rparr>\<rparr>"
    and "fst (checkGlobalnetConfig example_collaborators ?o) = None"
    by (simp_all add: example_collaborators_def example_options_def)
  with on show ?thesis by (simp add: prod_eq_iff)
qed

section \<open>Validation before deployment\<close>

text \<open>
  C5: \<^verbatim>\<open>Broker\<close> runs both validators before any collaborator is called. When the
  component validation or the globalnet validation returns an error, \<^verbatim>\<open>Broker\<close>
  returns that error (the first of the two, under the message of its validator), no
  call to RBAC, operator, broker object or globalnet configuration is made, and the
  state of the target cluster is the one it started from. Conversely, a run in which
  any call was made is one in which both validators returned nil.
\<close>

theorem Broker_validators_first:
  assumes run: "Broker env options w = (r, options', w')"
  shows "(isValidComponents env (sets_New (Components (BrokerSpec options))) \<noteq> None \<or>
          fst (checkGlobalnetConfig env options) \<noteq> None \<longrightarrow>
            cluster w' = cluster w \<and> calls_of (new_events w w') = [] \<and>
            r = (case isValidComponents env (sets_New (Components (BrokerSpec options))) of
                   Some e \<Rightarrow> Some (Wrapf e ''invalid components parameter'')
                 | None \<Rightarrow>
                     (case fst (checkGlobalnetConfig env options) of
                        Some e \<Rightarrow> Some (Wrapf e ''invalid GlobalCIDR configuration'')
                      | None \<Rightarrow> None)) \<and>
            r \<noteq> None) \<and>
         (calls_of (new_events w w') \<noteq> [] \<longrightarrow>
            isValidComponents env (sets_New (Components (BrokerSpec options))) = None \<and>
            fst (checkGlobalnetConfig env options) = None)"
proof -
  let ?v = "isValidComponents env (sets_New (Components (BrokerSpec options)))"
  let ?g = "fst (checkGlobalnetConfig env options)"
  let ?expected = "case ?v of
                   Some e \<Rightarrow> Some (Wrapf e ''invalid components parameter'')
                 | None \<Rightarrow>
                     (case ?g of
                        Some e \<Rightarrow> Some (Wrapf e ''invalid GlobalCIDR configuration'')
                      | None \<Rightarrow> None)"
  have bad: "cluster w' = cluster w \<and> calls_of (new_events w w') = [] \<and>
            r = ?expected \<and> r \<noteq> None"
    if "?v \<noteq> None \<or> ?g \<noteq> None"
  proof (cases ?v)
    case (Some e)
    from run [unfolded Broker_invalid_components [OF Some]]
    have r: "r = Some (Wrapf e ''invalid components parameter'')"
      and w': "w' = w\<lparr>trace := trace w @
          [Failure (Wrapf e ''invalid components parameter''), End]\<rparr>"
      by simp_all
    have "cluster w' = cluster w" by (simp add: w')
    moreover have "calls_of (new_events w w') = []" by (simp add: w' new_events_def)
    moreover have "r = ?expected" by (simp add: r Some)
    moreover have "r \<noteq> None" by (simp add: r)
    ultimately show ?thesis by (intro conjI)
  next
    case None
    with that obtain e where e: "?g = Some e" by auto
    then have c: "checkGlobalnetConfig env options =
        (Some e, snd (checkGlobalnetConfig env options))"
      by (simp add: prod_eq_iff)
    from run [unfolded Broker_invalid_globalnet [OF None c]]
    have r: "r = Some (Wrapf e ''invalid GlobalCIDR configuration'')"
      and w': "w' = w\<lparr>trace := trace w @
          [Failure (Wrapf e ''invalid GlobalCIDR configuration''), End]\<rparr>"
      by simp_all
    have "cluster w' = cluster w" by (simp add: w')
    moreover have "calls_of (new_events w w') = []" by (simp add: w' new_events_def)
    moreover have "r = ?expected" by (simp add: r None e)
    moreover have "r \<noteq> None" by (simp add: r)
    ultimately show ?thesis by (intro conjI)
  qed
  have good: "?v = None \<and> ?g = None" if "calls_of (new_events w w') \<noteq> []"
  proof (rule ccontr)
    assume "\<not> (?v = None \<and> ?g = None)"
    then have "?v \<noteq> None \<or> ?g \<noteq> None" by simp
    from bad [OF this] that show False by simp
  qed
  show ?thesis
  proof (intro conjI impI)
    assume a: "?v \<noteq> None \<or> ?g \<noteq> None"
    from bad [OF a] show "cluster w' = cluster w" by (elim conjE)
    from bad [OF a] show "calls_of (new_events w w') = []" by (elim conjE)
    from bad [OF a] show "r = ?expected" by (elim conjE)
    from bad [OF a] show "r \<noteq> None" by (elim conjE)
  next
    assume a: "calls_of (new_events w w') \<noteq> []"
    from good [OF a] show "?v = None" by (elim conjE)
    from good [OF a] show "?g = None" by (elim conjE)
  qed
qed

theorem Broker_validators_first_witness:
  "isValidComponents example_collaborators
     (sets_New (Components (BrokerSpec
        (example_options\<lparr>BrokerSpec := (BrokerSpec example_options)
           \<lparr>Components := [''gateway'']\<rparr>\<rparr>)))) \<noteq> None \<and>
   cluster (snd (snd (Broker example_collaborators
      (example_options\<lparr>BrokerSpec := (BrokerSpec example_options)\<lparr>Components := [''gateway'']\<rparr>\<rparr>)
      example_world))) = cluster example_world \<and>
   fst (Broker example_collaborators
      (example_options\<lparr>BrokerSpec := (BrokerSpec example_options)\<lparr>Components := [''gateway'']\<rparr>\<rparr>)
      example_world) =
     Some (Wrapf (Errorf ''unknown component: %s'' [''gateway'']) ''invalid components parameter'')"
proof -
  let ?o = "example_options\<lparr>BrokerSpec := (BrokerSpec example_options)\<lparr>Components := [''gateway'']\<rparr>\<rparr>"
  let ?run = "Broker example_collaborators ?o example_world"
  have v: "isValidComponents example_collaborators (sets_New (Components (BrokerSpec ?o))) =
      Some (Errorf ''unknown component: %s'' [''gateway''])"
    by (simp add: isValidComponents_def sets_New_def sets_Len_def sets_Has_def
        ValidComponents_def component_ServiceDiscovery_def component_Connectivity_def
        example_collaborators_def)
  have nz: "isValidComponents example_collaborators (sets_New (Components (BrokerSpec ?o))) \<noteq> None"
    unfolding v by (rule option.distinct(2))
  have run: "?run = (fst ?run, fst (snd ?run), snd (snd ?run))"
    by simp
  note c = Broker_validators_first [OF run, THEN conjunct1, THEN mp, OF disjI1, OF nz]
  from c have c1: "cluster (snd (snd ?run)) = cluster example_world" by (rule conjunct1)
  from c have "fst ?run =
      (case isValidComponents example_collaborators (sets_New (Components (BrokerSpec ?o))) of
         Some e \<Rightarrow> Some (Wrapf e ''invalid components parameter'')
       | None \<Rightarrow>
           (case fst (checkGlobalnetConfig example_collaborators ?o) of
              Some e \<Rightarrow> Some (Wrapf e ''invalid GlobalCIDR configuration'')
            | None \<Rightarrow> None))"
    by (elim conjE)
  then have c2: "fst ?run =
     Some (Wrapf (Errorf ''unknown component: %s'' [''gateway'']) ''invalid components parameter'')"
    unfolding v option.case .
  from nz c1 c2 show ?thesis by (intro conjI)
qed

section \<open>Existing globalnet configuration\<close>






section \<open>Global-address configuration with globalnet disabled\<close>

lemma fail_fast_run_first:
  "fail_fast_run ctx (s # ss) r rs \<Longrightarrow> s \<in> fst ` set rs"
  by (cases rs; cases "snd (hd rs)") auto

lemma fail_fast_run_proceeds:
  "fail_fast_run ctx ss r rs \<Longrightarrow> (s, None) \<in> set rs \<Longrightarrow>
   \<exists>pre post. ss = pre @ s # post \<and> (post = [] \<or> hd post \<in> fst ` set rs)"
proof (induction ctx ss r rs rule: fail_fast_run.induct)
  case (3 ctx s0 ss r s' rest)
  then have s0: "s' = s0" and run: "fail_fast_run ctx ss r rest" by simp_all
  show ?case
  proof (cases "(s, None) \<in> set rest")
    case True
    from "3.IH" [OF run True] obtain pre post where
      "ss = pre @ s # post" "post = [] \<or> hd post \<in> fst ` set rest" by blast
    then have "s0 # ss = (s0 # pre) @ s # post \<and>
        (post = [] \<or> hd post \<in> fst ` set ((s', None) # rest))" by auto
    then show ?thesis by blast
  next
    case False
    with "3.prems"(2) s0 have s: "s = s0" by simp
    have "ss = [] \<or> hd ss \<in> fst ` set rest"
    proof (cases ss)
      case Nil
      then show ?thesis by simp
    next
      case (Cons s1 ss')
      with run have "s1 \<in> fst ` set rest" by (simp add: fail_fast_run_first)
      with Cons show ?thesis by simp
    qed
    then have "s0 # ss = [] @ s # ss \<and> (ss = [] \<or> hd ss \<in> fst ` set ((s', None) # rest))"
      using s by auto
    then show ?thesis by blast
  qed
qed auto

text \<open>
  C3, as the spec states it, says that with globalnet disabled neither the validation of
  the existing configuration nor the creation of the configuration record is performed.
  The source guards the validation only; \<^verbatim>\<open>globalnet.CreateConfigMap\<close> is called in
  every run that gets that far, with the enabled flag as its first argument. On the
  sample cluster, with globalnet disabled, the run succeeds, calls
  \<^verbatim>\<open>CreateConfigMap\<close> with the flag false and leaves the record in the cluster.
\<close>

theorem globalnet_disabled_creates_configmap:
  "\<not> GlobalnetEnabled (BrokerSpec example_options) \<and>
   fst (Broker example_collaborators example_options example_world) = None \<and>
   (Call_CreateConfigMap False ''242.0.0.0/8'' 0 ''submariner-k8s-broker'', None) \<in>
     set (calls_of (new_events example_world
       (snd (snd (Broker example_collaborators example_options example_world))))) \<and>
   GLOBALNET_CONFIGMAP \<in>
     set (steps_run example_world
       (snd (snd (Broker example_collaborators example_options example_world)))) \<and>
   cluster (snd (snd (Broker example_collaborators example_options example_world))) =
     [''rbac'', ''operator'', ''broker'', ''configmap'']"
  by (simp add: eval_defs example_defs)

text \<open>
  C3, amended: with globalnet disabled, the validation of the existing globalnet
  configuration is never performed; the creation of the configuration record is still
  performed whenever the broker object step returned nil, and it is called with the
  enabled flag false and the range, size and namespace of the options; a successful
  run consists of the four steps RBAC, operator, broker object and configuration record.
\<close>

theorem globalnet_disabled_configuration:
  assumes run: "Broker env options w = (r, options', w')"
    and off: "\<not> GlobalnetEnabled (BrokerSpec options)"
  shows "GLOBALNET_VALIDATE \<notin> set (steps_run w w') \<and>
         (\<forall>c x. (c, x) \<in> set (calls_of (new_events w w')) \<and> step_of c = GLOBALNET_CONFIGMAP \<longrightarrow>
            c = Call_CreateConfigMap False (GlobalnetCIDRRange (BrokerSpec options))
                  (DefaultGlobalnetClusterSize (BrokerSpec options)) (BrokerNamespace options)) \<and>
         ((BROKER_OBJECT, None) \<in> set (results_of (new_events w w')) \<longrightarrow>
            GLOBALNET_CONFIGMAP \<in> set (steps_run w w')) \<and>
         (r = None \<longrightarrow>
            steps_run w w' = [RBAC, OPERATOR, BROKER_OBJECT, GLOBALNET_CONFIGMAP])"
proof -
  let ?rs = "results_of (new_events w w')"
  let ?cs = "calls_of (new_events w w')"
  let ?create = "Call_CreateConfigMap False (GlobalnetCIDRRange (BrokerSpec options))
                  (DefaultGlobalnetClusterSize (BrokerSpec options)) (BrokerNamespace options)"
  from Broker_step_outcomes [OF run] off consider
    (invalid) "?rs = []" "r \<noteq> None"
    | (ran) "fail_fast_run context_of [RBAC, OPERATOR, BROKER_OBJECT, GLOBALNET_CONFIGMAP] r ?rs"
    by auto
  then have steps: "GLOBALNET_VALIDATE \<notin> set (steps_run w w') \<and>
      ((BROKER_OBJECT, None) \<in> set ?rs \<longrightarrow> GLOBALNET_CONFIGMAP \<in> set (steps_run w w')) \<and>
      (r = None \<longrightarrow> steps_run w w' = [RBAC, OPERATOR, BROKER_OBJECT, GLOBALNET_CONFIGMAP])"
  proof cases
    case invalid
    then show ?thesis by (simp add: steps_run_def)
  next
    case ran
    from fail_fast_run_prefix [OF ran]
    have "set (steps_run w w') \<subseteq> set [RBAC, OPERATOR, BROKER_OBJECT, GLOBALNET_CONFIGMAP]"
      unfolding steps_run_def by (rule set_mono_prefix)
    then have a: "GLOBALNET_VALIDATE \<notin> set (steps_run w w')" by auto
    have b: "GLOBALNET_CONFIGMAP \<in> set (steps_run w w')" if "(BROKER_OBJECT, None) \<in> set ?rs"
    proof -
      from fail_fast_run_proceeds [OF ran that] obtain pre post where
        pp: "[RBAC, OPERATOR, BROKER_OBJECT, GLOBALNET_CONFIGMAP] = pre @ BROKER_OBJECT # post"
        and nx: "post = [] \<or> hd post \<in> fst ` set ?rs" by blast
      from pp have "post = [GLOBALNET_CONFIGMAP]"
        by (auto simp: Cons_eq_append_conv)
      with nx show ?thesis by (simp add: steps_run_def)
    qed
    have c: "steps_run w w' = [RBAC, OPERATOR, BROKER_OBJECT, GLOBALNET_CONFIGMAP]" if "r = None"
    proof -
      from ran that
      have "fail_fast_run context_of [RBAC, OPERATOR, BROKER_OBJECT, GLOBALNET_CONFIGMAP] None ?rs"
        by simp
      from fail_fast_run_success [OF this] show ?thesis by (simp add: steps_run_def)
    qed
    from a b c show ?thesis by blast
  qed
  have args: "c = ?create" if m: "(c, x) \<in> set ?cs" and s: "step_of c = GLOBALNET_CONFIGMAP" for c x
  proof -
    from m have "?cs \<noteq> []" by auto
    with Broker_outcomes [OF run] have
      ran: "fail_fast_run (context_of \<circ> step_of)
          (deploy_calls env options' @ globalnet_calls options') r ?cs"
      and o: "snd (checkGlobalnetConfig env options) = options'" by blast+
    from o off have o': "options' = options" by (simp add: checkGlobalnetConfig_off)
    from m have "c \<in> set (map fst ?cs)" by force
    with fail_fast_run_prefix [OF ran, THEN set_mono_prefix]
    have "c \<in> set (deploy_calls env options' @ globalnet_calls options')" by blast
    with s off show ?thesis
      unfolding o' by (auto simp: deploy_calls_def globalnet_calls_def)
  qed
  from steps args show ?thesis by blast
qed

theorem globalnet_disabled_configuration_witness:
  "\<not> GlobalnetEnabled (BrokerSpec example_options) \<and>
   (BROKER_OBJECT, None) \<in>
     set (results_of (new_events example_world
       (snd (snd (Broker example_collaborators example_options example_world))))) \<and>
   GLOBALNET_VALIDATE \<notin>
     set (steps_run example_world
       (snd (snd (Broker example_collaborators example_options example_world)))) \<and>
   steps_run example_world
       (snd (snd (Broker example_collaborators example_options example_world))) =
     [RBAC, OPERATOR, BROKER_OBJECT, GLOBALNET_CONFIGMAP]"
proof -
  let ?run = "Broker example_collaborators example_options example_world"
  have run: "?run = (fst ?run, fst (snd ?run), snd (snd ?run))" by simp
  have off: "\<not> GlobalnetEnabled (BrokerSpec example_options)"
    by (simp add: example_options_def)
  have ok: "(BROKER_OBJECT, None) \<in> set (results_of (new_events example_world (snd (snd ?run))))"
    by (simp add: eval_defs example_defs)
  have r: "fst ?run = None"
    by (simp add: eval_defs example_defs)
  note c = globalnet_disabled_configuration [OF run off]
  from c have c1: "GLOBALNET_VALIDATE \<notin> set (steps_run example_world (snd (snd ?run)))"
    by (rule conjunct1)
  from c have "fst ?run = None \<longrightarrow>
      steps_run example_world (snd (snd ?run)) =
        [RBAC, OPERATOR, BROKER_OBJECT, GLOBALNET_CONFIGMAP]"
    by (elim conjE)
  with r have c2: "steps_run example_world (snd (snd ?run)) =
        [RBAC, OPERATOR, BROKER_OBJECT, GLOBALNET_CONFIGMAP]" by (rule rev_mp)
  from off ok c1 c2 show ?thesis by (intro conjI)
qed

section \<open>The default output directory of gather\<close>

lemma utoa_small: "n < 10 \<Longrightarrow> utoa n = [digit n]"
  by (subst utoa.simps) simp

lemma utoa_step: "10 \<le> n \<Longrightarrow> utoa n = utoa (n div 10) @ [digit n]"
  by (subst utoa.simps) simp

lemma utoa_2: "10 \<le> n \<Longrightarrow> n < 100 \<Longrightarrow> utoa n = [digit (n div 10), digit n]"
  by (simp add: utoa_step utoa_small)

lemma utoa_3: "100 \<le> n \<Longrightarrow> n < 1000 \<Longrightarrow> utoa n = [digit (n div 100), digit (n div 10), digit n]"
proof -
  assume a: "100 \<le> n" "n < 1000"
  then have "utoa n = utoa (n div 10) @ [digit n]" by (intro utoa_step) simp
  moreover from a have "utoa (n div 10) = [digit (n div 10 div 10), digit (n div 10)]"
    by (intro utoa_2) simp_all
  moreover have "n div 10 div 10 = n div 100" by (simp add: div_mult2_eq [symmetric])
  ultimately show ?thesis by simp
qed

lemma utoa_4: "1000 \<le> n \<Longrightarrow> n < 10000 \<Longrightarrow>
  utoa n = [digit (n div 1000), digit (n div 100), digit (n div 10), digit n]"
proof -
  assume a: "1000 \<le> n" "n < 10000"
  then have "utoa n = utoa (n div 10) @ [digit n]" by (intro utoa_step) simp
  moreover from a have "utoa (n div 10) =
      [digit (n div 10 div 100), digit (n div 10 div 10), digit (n div 10)]"
    by (intro utoa_3) simp_all
  moreover have "n div 10 div 10 = n div 100" "n div 10 div 100 = n div 1000"
    by (simp_all add: div_mult2_eq [symmetric])
  ultimately show ?thesis by simp
qed

lemma digit_zero: "digit 0 = CHR ''0''"
  by code_simp

lemma appendInt_2: "n < 100 \<Longrightarrow> appendInt n 2 = [digit (n div 10), digit n]"
proof (cases "n < 10")
  case True
  then show ?thesis
    by (simp add: appendInt_def utoa_small digit_zero)
next
  case False
  moreover assume "n < 100"
  ultimately show ?thesis
    by (simp add: appendInt_def utoa_2)
qed

lemma replicate_2: "replicate 2 x = [x, x]"
  by (simp add: numeral_2_eq_2)

lemma replicate_3: "replicate 3 x = [x, x, x]"
  by (simp add: numeral_3_eq_3)

lemma appendInt_4: "n < 10000 \<Longrightarrow>
  appendInt n 4 = [digit (n div 1000), digit (n div 100), digit (n div 10), digit n]"
proof -
  assume n: "n < 10000"
  consider "n < 10" | "10 \<le> n" "n < 100" | "100 \<le> n" "n < 1000" | "1000 \<le> n" by linarith
  then show ?thesis
  proof cases
    case 1
    then show ?thesis
      by (simp add: appendInt_def utoa_small digit_zero replicate_3)
  next
    case 2
    then show ?thesis
      by (simp add: appendInt_def utoa_2 digit_zero replicate_2)
  next
    case 3
    then show ?thesis
      by (simp add: appendInt_def utoa_3 digit_zero)
  next
    case 4
    with n show ?thesis by (simp add: appendInt_def utoa_4)
  qed
qed

lemma Format_digits:
  assumes "Year t < 10000" "Month t < 100" "Day t < 100" "Hour t < 100" "Minute t < 100"
    "Second t < 100"
  shows "Format_20060102150405 t =
     map digit [Year t div 1000, Year t div 100, Year t div 10, Year t,
                Month t div 10, Month t, Day t div 10, Day t,
                Hour t div 10, Hour t, Minute t div 10, Minute t,
                Second t div 10, Second t]"
  using assms by (simp add: Format_20060102150405_def appendInt_2 appendInt_4)


lemma char_of_digits:
  "char_of (48 :: nat) = CHR ''0''" "char_of (49 :: nat) = CHR ''1''"
  "char_of (50 :: nat) = CHR ''2''" "char_of (51 :: nat) = CHR ''3''"
  "char_of (52 :: nat) = CHR ''4''" "char_of (53 :: nat) = CHR ''5''"
  "char_of (54 :: nat) = CHR ''6''" "char_of (55 :: nat) = CHR ''7''"
  "char_of (56 :: nat) = CHR ''8''" "char_of (57 :: nat) = CHR ''9''"
  by code_simp+

lemma example_format: "Format_20060102150405 example_time = ''20230405060708''"
proof -
  have "Format_20060102150405 example_time =
      map digit [Year example_time div 1000, Year example_time div 100,
                 Year example_time div 10, Year example_time,
                 Month example_time div 10, Month example_time,
                 Day example_time div 10, Day example_time,
                 Hour example_time div 10, Hour example_time,
                 Minute example_time div 10, Minute example_time,
                 Second example_time div 10, Second example_time]"
    by (rule Format_digits) (simp_all add: example_time_def)
  then show ?thesis
    by (simp add: example_time_def digit_def char_of_digits)
qed

lemma gatherCmd_Run_options:
  "fst (snd (gatherCmd_Run env now options w)) =
     (if Directory options = []
      then options\<lparr>Directory := ''submariner-'' @ Format_20060102150405 now\<rparr>
      else options)"
  by (simp add: gatherCmd_Run_def Let_def split: option.splits prod.splits)

text \<open>
  C9: when the directory option is empty, the gather command sets it to \<^verbatim>\<open>submariner-\<close>
  followed by the UTC time in the layout \<^verbatim>\<open>20060102150405\<close>; a directory that is not
  empty is left as it is. For every reading of the clock with a year below 10000 the
  time is fourteen decimal digits: four of the year, then two each of month, day, hour,
  minute and second. Nothing below the second enters the name.
\<close>

theorem gather_default_directory:
  "Directory (fst (snd (gatherCmd_Run env now options w))) =
     (if Directory options = [] then ''submariner-'' @ Format_20060102150405 now
      else Directory options) \<and>
   (Year now < 10000 \<and> Month now < 100 \<and> Day now < 100 \<and> Hour now < 100 \<and>
    Minute now < 100 \<and> Second now < 100 \<longrightarrow>
      Format_20060102150405 now =
        map digit [Year now div 1000, Year now div 100, Year now div 10, Year now,
                   Month now div 10, Month now, Day now div 10, Day now,
                   Hour now div 10, Hour now, Minute now div 10, Minute now,
                   Second now div 10, Second now]) \<and>
   Format_20060102150405 (now\<lparr>Nanosecond := n\<rparr>) = Format_20060102150405 now"
proof (intro conjI impI)
  show "Directory (fst (snd (gatherCmd_Run env now options w))) =
     (if Directory options = [] then ''submariner-'' @ Format_20060102150405 now
      else Directory options)"
    unfolding gatherCmd_Run_options by simp
next
  assume "Year now < 10000 \<and> Month now < 100 \<and> Day now < 100 \<and> Hour now < 100 \<and>
    Minute now < 100 \<and> Second now < 100"
  then show "Format_20060102150405 now =
        map digit [Year now div 1000, Year now div 100, Year now div 10, Year now,
                   Month now div 10, Month now, Day now div 10, Day now,
                   Hour now div 10, Hour now, Minute now div 10, Minute now,
                   Second now div 10, Second now]"
    by (intro Format_digits) simp_all
next
  show "Format_20060102150405 (now\<lparr>Nanosecond := n\<rparr>) = Format_20060102150405 now"
    by (simp add: Format_20060102150405_def)
qed

theorem gather_default_directory_witness:
  "Year example_time < 10000 \<and> Month example_time < 100 \<and> Day example_time < 100 \<and>
   Hour example_time < 100 \<and> Minute example_time < 100 \<and> Second example_time < 100 \<and>
   Directory example_gather_options = [] \<and>
   Directory (fst (snd (gatherCmd_Run example_gather example_time example_gather_options []))) =
     ''submariner-20230405060708'' \<and>
   Directory (fst (snd (gatherCmd_Run example_gather example_time
      (example_gather_options\<lparr>Directory := ''out''\<rparr>) []))) = ''out''"
proof -
  have b: "Year example_time < 10000 \<and> Month example_time < 100 \<and> Day example_time < 100 \<and>
   Hour example_time < 100 \<and> Minute example_time < 100 \<and> Second example_time < 100"
    by (simp add: example_time_def)
  have e: "Directory example_gather_options = []"
    by (simp add: example_gather_options_def)
  from gather_default_directory [of example_gather example_time example_gather_options "[]"]
  have "Directory (fst (snd (gatherCmd_Run example_gather example_time example_gather_options []))) =
     (if Directory example_gather_options = [] then ''submariner-'' @ Format_20060102150405 example_time
      else Directory example_gather_options)"
    by (rule conjunct1)
  then have d1: "Directory (fst (snd (gatherCmd_Run example_gather example_time
      example_gather_options []))) = ''submariner-20230405060708''"
    unfolding e example_format by simp
  from gather_default_directory [of example_gather example_time
      "example_gather_options\<lparr>Directory := ''out''\<rparr>" "[]"]
  have "Directory (fst (snd (gatherCmd_Run example_gather example_time
      (example_gather_options\<lparr>Directory := ''out''\<rparr>) []))) =
     (if Directory (example_gather_options\<lparr>Directory := ''out''\<rparr>) = []
      then ''submariner-'' @ Format_20060102150405 example_time
      else Directory (example_gather_options\<lparr>Directory := ''out''\<rparr>))"
    by (rule conjunct1)
  then have d2: "Directory (fst (snd (gatherCmd_Run example_gather example_time
      (example_gather_options\<lparr>Directory := ''out''\<rparr>) []))) = ''out''"
    by simp
  from b e d1 d2 show ?thesis by simp
qed

section \<open>Pre-flight validation of gather\<close>

lemma checkTypes_None: "checkTypes allTypes ts = None \<longleftrightarrow> set ts \<subseteq> set allTypes"
  by (induction ts) (auto simp: sets_Has_def)

lemma checkTypes_Some:
  "checkTypes allTypes ts = Some err \<Longrightarrow>
   \<exists>t. t \<in> set ts \<and> t \<notin> set allTypes \<and> err = Errorf ''%q is not a supported type'' [t]"
  by (induction ts) (auto simp: sets_Has_def split: if_splits)

lemma checkModules_None: "checkModules allModules ms = None \<longleftrightarrow> set ms \<subseteq> set allModules"
  by (induction ms) (auto simp: sets_Has_def)

lemma checkModules_Some:
  "checkModules allModules ms = Some err \<Longrightarrow>
   \<exists>m. m \<in> set ms \<and> m \<notin> set allModules \<and> err = Errorf ''%q is not a supported module'' [m]"
  by (induction ms) (auto simp: sets_Has_def split: if_splits)

lemma checkGatherArguments_None:
  "checkGatherArguments env options = None \<longleftrightarrow>
     set (Types options) \<subseteq> set (gather_AllTypes env) \<and>
     set (Modules options) \<subseteq> set (gather_AllModules env)"
  by (cases "checkTypes (gather_AllTypes env) (Types options)")
    (simp_all add: checkGatherArguments_def checkModules_None flip: checkTypes_None)

lemma checkGatherArguments_Some:
  assumes "checkGatherArguments env options = Some err"
  shows "(\<exists>t. t \<in> set (Types options) \<and> t \<notin> set (gather_AllTypes env) \<and>
              err = Errorf ''%q is not a supported type'' [t]) \<or>
         (\<exists>m. m \<in> set (Modules options) \<and> m \<notin> set (gather_AllModules env) \<and>
              err = Errorf ''%q is not a supported module'' [m])"
proof (cases "checkTypes (gather_AllTypes env) (Types options)")
  case None
  with assms have "checkModules (gather_AllModules env) (Modules options) = Some err"
    by (simp add: checkGatherArguments_def)
  from checkModules_Some [OF this] show ?thesis by (rule disjI2)
next
  case (Some e)
  with assms have "e = err" by (simp add: checkGatherArguments_def)
  with Some have "checkTypes (gather_AllTypes env) (Types options) = Some err" by simp
  from checkTypes_Some [OF this] show ?thesis by (rule disjI1)
qed

lemma checkGatherArguments_Directory:
  "checkGatherArguments env (options\<lparr>Directory := d\<rparr>) = checkGatherArguments env options"
  by (simp add: checkGatherArguments_def split: option.splits)

lemma checkGatherArguments_env:
  "checkGatherArguments (env\<lparr>RunOnAllContexts := run', gather_Data := data'\<rparr>) options =
   checkGatherArguments env options"
  by (simp add: checkGatherArguments_def split: option.splits)

lemma gatherCmd_Run_invalid:
  assumes "checkGatherArguments env options = Some err"
  shows "gatherCmd_Run env now options w =
     (ExitOnErrorWithMessage err ''Invalid argument'',
      (if Directory options = []
       then options\<lparr>Directory := ''submariner-'' @ Format_20060102150405 now\<rparr>
       else options), w)"
  by (simp add: gatherCmd_Run_def Let_def checkGatherArguments_Directory assms)

lemma gatherCmd_Run_valid:
  assumes "checkGatherArguments env options = None"
  shows "snd (snd (gatherCmd_Run env now options w)) =
     snd (RunOnAllContexts env
            (\<lambda>clusterInfo namespace. gather_Data env clusterInfo
               (if Directory options = []
                then options\<lparr>Directory := ''submariner-'' @ Format_20060102150405 now\<rparr>
                else options)) w)"
  by (simp add: gatherCmd_Run_def Let_def checkGatherArguments_Directory assms
      split: prod.splits option.splits)

text \<open>
  C6: \<^verbatim>\<open>checkGatherArguments\<close> returns nil exactly when every requested type is a known
  type and every requested module is a known module. When it returns an error, the
  error names a requested type that is not known or a requested module that is not
  known, the command exits on that error with the message \<^verbatim>\<open>Invalid argument\<close>, and
  nothing outside the process has changed: the runner over the cluster contexts and the
  collector are not called, whatever they are. Only when the check returns nil does the
  command hand the collector to the runner.
\<close>

theorem gather_validates_before_clusters:
  "(checkGatherArguments env options = None \<longleftrightarrow>
      set (Types options) \<subseteq> set (gather_AllTypes env) \<and>
      set (Modules options) \<subseteq> set (gather_AllModules env)) \<and>
   (\<forall>err. checkGatherArguments env options = Some err \<longrightarrow>
      ((\<exists>t. t \<in> set (Types options) \<and> t \<notin> set (gather_AllTypes env) \<and>
            err = Errorf ''%q is not a supported type'' [t]) \<or>
       (\<exists>m. m \<in> set (Modules options) \<and> m \<notin> set (gather_AllModules env) \<and>
            err = Errorf ''%q is not a supported module'' [m])) \<and>
      fst (gatherCmd_Run env now options w) = ExitOnErrorWithMessage err ''Invalid argument'' \<and>
      snd (snd (gatherCmd_Run env now options w)) = w \<and>
      (\<forall>run' data'.
         gatherCmd_Run (env\<lparr>RunOnAllContexts := run', gather_Data := data'\<rparr>) now options w =
         gatherCmd_Run env now options w)) \<and>
   (checkGatherArguments env options = None \<longrightarrow>
      snd (snd (gatherCmd_Run env now options w)) =
        snd (RunOnAllContexts env
               (\<lambda>clusterInfo namespace. gather_Data env clusterInfo
                  (if Directory options = []
                   then options\<lparr>Directory := ''submariner-'' @ Format_20060102150405 now\<rparr>
                   else options)) w))"
proof (intro conjI allI impI)
  show "checkGatherArguments env options = None \<longleftrightarrow>
      set (Types options) \<subseteq> set (gather_AllTypes env) \<and>
      set (Modules options) \<subseteq> set (gather_AllModules env)"
    by (rule checkGatherArguments_None)
next
  fix err assume e: "checkGatherArguments env options = Some err"
  from e show "(\<exists>t. t \<in> set (Types options) \<and> t \<notin> set (gather_AllTypes env) \<and>
            err = Errorf ''%q is not a supported type'' [t]) \<or>
       (\<exists>m. m \<in> set (Modules options) \<and> m \<notin> set (gather_AllModules env) \<and>
            err = Errorf ''%q is not a supported module'' [m])"
    by (rule checkGatherArguments_Some)
  show "fst (gatherCmd_Run env now options w) = ExitOnErrorWithMessage err ''Invalid argument''"
    by (simp add: gatherCmd_Run_invalid [OF e])
  show "snd (snd (gatherCmd_Run env now options w)) = w"
    by (simp add: gatherCmd_Run_invalid [OF e])
  fix run' data'
  have e': "checkGatherArguments (env\<lparr>RunOnAllContexts := run', gather_Data := data'\<rparr>) options =
      Some err"
    by (simp only: checkGatherArguments_env e)
  show "gatherCmd_Run (env\<lparr>RunOnAllContexts := run', gather_Data := data'\<rparr>) now options w =
         gatherCmd_Run env now options w"
    by (simp only: gatherCmd_Run_invalid [OF e] gatherCmd_Run_invalid [OF e'])
next
  assume "checkGatherArguments env options = None"
  then show "snd (snd (gatherCmd_Run env now options w)) =
        snd (RunOnAllContexts env
               (\<lambda>clusterInfo namespace. gather_Data env clusterInfo
                  (if Directory options = []
                   then options\<lparr>Directory := ''submariner-'' @ Format_20060102150405 now\<rparr>
                   else options)) w)"
    by (rule gatherCmd_Run_valid)
qed

theorem gather_validates_before_clusters_witness:
  "checkGatherArguments example_gather (example_gather_options\<lparr>Types := [''logs'', ''badvalue'']\<rparr>) =
     Some (Errorf ''%q is not a supported type'' [''badvalue'']) \<and>
   gatherCmd_Run example_gather example_time
     (example_gather_options\<lparr>Types := [''logs'', ''badvalue'']\<rparr>) [] =
     (ExitOnErrorWithMessage (Errorf ''%q is not a supported type'' [''badvalue''])
        ''Invalid argument'',
      example_gather_options
        \<lparr>Types := [''logs'', ''badvalue''], Directory := ''submariner-20230405060708''\<rparr>,
      []) \<and>
   snd (snd (gatherCmd_Run example_gather example_time example_gather_options [])) =
     [''cluster1'']"
proof -
  let ?o = "example_gather_options\<lparr>Types := [''logs'', ''badvalue'']\<rparr>"
  let ?run = "gatherCmd_Run example_gather example_time ?o []"
  have e: "checkGatherArguments example_gather ?o =
      Some (Errorf ''%q is not a supported type'' [''badvalue''])"
    by (simp add: checkGatherArguments_def example_gather_def example_gather_options_def
        sets_Has_def)
  note c = gather_validates_before_clusters [of example_gather ?o example_time "[]",
      THEN conjunct2, THEN conjunct1, THEN spec, THEN mp, OF e]
  from c have c1: "fst ?run =
      ExitOnErrorWithMessage (Errorf ''%q is not a supported type'' [''badvalue''])
        ''Invalid argument''" by (elim conjE)
  from c have c2: "snd (snd ?run) = []" by (elim conjE)
  have c3: "fst (snd ?run) =
      example_gather_options
        \<lparr>Types := [''logs'', ''badvalue''], Directory := ''submariner-20230405060708''\<rparr>"
    by (simp add: gatherCmd_Run_options example_gather_options_def example_format)
  have ok: "checkGatherArguments example_gather example_gather_options = None"
    by (simp add: checkGatherArguments_def example_gather_def example_gather_options_def
        sets_Has_def)
  note d = gather_validates_before_clusters [of example_gather example_gather_options
      example_time "[]", THEN conjunct2, THEN conjunct2, THEN mp, OF ok]
  have c4: "snd (snd (gatherCmd_Run example_gather example_time example_gather_options [])) =
     [''cluster1'']"
    unfolding d by (simp add: example_gather_def)
  from c1 c2 c3 have "?run =
     (ExitOnErrorWithMessage (Errorf ''%q is not a supported type'' [''badvalue''])
        ''Invalid argument'',
      example_gather_options
        \<lparr>Types := [''logs'', ''badvalue''], Directory := ''submariner-20230405060708''\<rparr>,
      [])"
    by (simp add: prod_eq_iff)
  with e c4 show ?thesis by (intro conjI)
qed

end
